theory Spec2Isabelle
  imports Complex_Main "HOL-Library.Word"
begin

section \<open>JavaScript strings and values\<close>

text \<open>
  A JavaScript string is a sequence of 16-bit UTF-16 code units: \<open>length\<close>, \<open>indexOf\<close>,
  \<open>slice\<close>, \<open>split\<close> and regular expressions without the \<open>u\<close> flag all count code
  units. ASCII literals are written \<open>js ''abc''\<close>.
\<close>

type_synonym jschar = "16 word"
type_synonym jsstring = "jschar list"

abbreviation ch :: "char \<Rightarrow> jschar" where
  "ch \<equiv> of_char"

definition js :: "string \<Rightarrow> jsstring" where
  "js s = map ch s"

text \<open>The values a string-typed parameter can hold at run time.\<close>

datatype jsvalue = Undefined | Null | Str jsstring

text \<open>Calling a string method on a value that has none raises \<open>TypeError\<close>.\<close>

datatype error = TypeError

text \<open>\<open>s.startsWith(p)\<close>\<close>

fun js_startsWith :: "'a list \<Rightarrow> 'a list \<Rightarrow> bool" where
  "js_startsWith s [] = True"
| "js_startsWith [] (p # ps) = False"
| "js_startsWith (c # s) (p # ps) = (c = p \<and> js_startsWith s ps)"

text \<open>\<open>s.indexOf(p)\<close>, with \<open>None\<close> for \<open>-1\<close>.\<close>

fun js_indexOf :: "'a list \<Rightarrow> 'a list \<Rightarrow> nat option" where
  "js_indexOf [] p = (if p = [] then Some 0 else None)"
| "js_indexOf (c # s) p =
     (if js_startsWith (c # s) p then Some 0 else map_option Suc (js_indexOf s p))"

text \<open>\<open>s.slice(a, b)\<close> and \<open>s.slice(a)\<close> for indices that are not negative.\<close>

definition js_slice :: "'a list \<Rightarrow> nat \<Rightarrow> nat \<Rightarrow> 'a list" where
  "js_slice s a b = take (b - a) (drop a s)"

definition js_sliceFrom :: "'a list \<Rightarrow> nat \<Rightarrow> 'a list" where
  "js_sliceFrom s a = drop a s"

text \<open>
  \<open>s.split(sep)\<close> for a separator of one code unit: the pieces between the
  separators, empty ones included, so that \<open>''.split(sep)\<close> is \<open>['']\<close>. The piece
  being read is carried along.
\<close>

fun split_from :: "'a \<Rightarrow> 'a list \<Rightarrow> 'a list \<Rightarrow> 'a list list" where
  "split_from sep cur [] = [cur]"
| "split_from sep cur (c # s) =
     (if c = sep then cur # split_from sep [] s else split_from sep (cur @ [c]) s)"

definition js_split :: "'a \<Rightarrow> 'a list \<Rightarrow> 'a list list" where
  "js_split sep s = split_from sep [] s"

text \<open>
  \<open>s.replace(/ab/g, r)\<close> for a pattern of two literal code units: one scan from the
  left, matches do not overlap, and the replacement is not scanned again.
\<close>

fun js_replace2 :: "'a \<Rightarrow> 'a \<Rightarrow> 'a \<Rightarrow> 'a list \<Rightarrow> 'a list" where
  "js_replace2 a b r (x # y # s) =
     (if x = a \<and> y = b then r # js_replace2 a b r s else x # js_replace2 a b r (y # s))"
| "js_replace2 a b r s = s"

section \<open>Twitch: the IRC tokenizer\<close>

type_synonym tagmap = "jsstring \<rightharpoonup> jsstring"

text \<open>
  \<open>tags[key] = value\<close> on an object literal. The key \<open>__proto__\<close> reaches the prototype
  setter, which ignores a string and stores nothing.
\<close>

definition set_tag :: "tagmap \<Rightarrow> jsstring \<Rightarrow> jsstring \<Rightarrow> tagmap" where
  "set_tag m k v = (if k = js ''__proto__'' then m else m(k \<mapsto> v))"

abbreviation backslash :: jschar where
  "backslash \<equiv> ch (CHR 0x5C)"

text \<open>The chain of five global replacements of \<open>parseIrcTags\<close>, in the source's order.\<close>

definition unescape :: "jsstring \<Rightarrow> jsstring" where
  "unescape v =
     js_replace2 backslash backslash backslash
       (js_replace2 backslash (ch CHR '':'') (ch CHR '';'')
         (js_replace2 backslash (ch CHR ''r'') (ch (CHR 0x0D))
           (js_replace2 backslash (ch CHR ''n'') (ch (CHR 0x0A))
             (js_replace2 backslash (ch CHR ''s'') (ch CHR '' '') v))))"

definition parsePair :: "tagmap \<Rightarrow> jsstring \<Rightarrow> tagmap" where
  "parsePair m pair =
     (case js_indexOf pair (js ''='') of
        None \<Rightarrow> set_tag m pair []
      | Some eqIdx \<Rightarrow>
          set_tag m (js_slice pair 0 eqIdx) (unescape (js_sliceFrom pair (eqIdx + 1))))"

definition parseIrcTags :: "jsstring \<Rightarrow> tagmap" where
  "parseIrcTags tagsStr =
     (if tagsStr = [] then Map.empty
      else foldl parsePair Map.empty (js_split (ch CHR '';'') tagsStr))"

record frame =
  raw :: jsstring
  tags :: tagmap
  meta :: "tagmap option"
  prefix :: "jsstring option"
  command :: "jsstring option"
  params :: "jsstring list"
  trailing :: "jsstring option"

definition new_result :: "jsstring \<Rightarrow> frame" where
  "new_result message =
     \<lparr>raw = message, tags = Map.empty, meta = None, prefix = None, command = None,
      params = [], trailing = None\<rparr>"

text \<open>Lines 93 to 110: the trailing part, then the command and its parameters.\<close>

definition parse_command :: "frame \<Rightarrow> jsstring \<Rightarrow> frame" where
  "parse_command result remaining =
     (let (result', commandAndParams) =
        (case js_indexOf remaining (js '' :'') of
           Some trailingIdx \<Rightarrow>
             (result\<lparr>trailing := Some (js_sliceFrom remaining (trailingIdx + 2))\<rparr>,
              js_slice remaining 0 trailingIdx)
         | None \<Rightarrow> (result, remaining))
      in case filter (\<lambda>p. p \<noteq> []) (js_split (ch CHR '' '') commandAndParams) of
           [] \<Rightarrow> result'
         | p # ps \<Rightarrow> result'\<lparr>command := Some p, params := ps\<rparr>)"

text \<open>Lines 85 to 91: the prefix block; a block with no space ends the parse.\<close>

definition parse_prefix :: "frame \<Rightarrow> jsstring \<Rightarrow> frame" where
  "parse_prefix result remaining =
     (if js_startsWith remaining (js '':'') then
        (case js_indexOf remaining (js '' '') of
           None \<Rightarrow> result
         | Some spaceIdx \<Rightarrow>
             parse_command (result\<lparr>prefix := Some (js_slice remaining 1 spaceIdx)\<rparr>)
               (js_sliceFrom remaining (spaceIdx + 1)))
      else parse_command result remaining)"

text \<open>
  Lines 63 to 83: the tag block. The return of line 77 comes before \<open>meta\<close> is
  assigned, so that frame has no \<open>meta\<close>.
\<close>

definition parse_line :: "jsstring \<Rightarrow> frame" where
  "parse_line message =
     (let result = new_result message in
      if js_startsWith message (js ''@'') then
        (case js_indexOf message (js '' '') of
           None \<Rightarrow> result
         | Some spaceIdx \<Rightarrow>
             (let t = parseIrcTags (js_slice message 1 spaceIdx)
              in parse_prefix (result\<lparr>tags := t, meta := Some t\<rparr>)
                   (js_sliceFrom message (spaceIdx + 1))))
      else parse_prefix (result\<lparr>meta := Some (tags result)\<rparr>) message)"

text \<open>
  \<open>parseIrcMessageToJson(message)\<close>: \<open>message.startsWith\<close> raises on a value that is
  not a string.
\<close>

definition parseIrcMessageToJson :: "jsvalue \<Rightarrow> error + frame" where
  "parseIrcMessageToJson message =
     (case message of Str s \<Rightarrow> Inr (parse_line s) | _ \<Rightarrow> Inl TypeError)"

definition extractUsername :: "jsstring option \<Rightarrow> jsstring option" where
  "extractUsername p =
     (case p of
        None \<Rightarrow> None
      | Some s \<Rightarrow>
          if s = [] then None
          else (case js_indexOf s (js ''!'') of
                  None \<Rightarrow> Some s
                | Some bangIdx \<Rightarrow> Some (js_slice s 0 bangIdx)))"

definition hasBadge :: "jsvalue \<Rightarrow> jsstring \<Rightarrow> bool" where
  "hasBadge badges btype =
     (case badges of
        Str s \<Rightarrow>
          s \<noteq> [] \<and> list_ex (\<lambda>b. js_startsWith b (btype @ js ''/'')) (js_split (ch CHR '','') s)
      | _ \<Rightarrow> False)"

subsection \<open>The badge test as the specification words it\<close>

text \<open>
  The token part of a \<open>token/version\<close> entry is what stands before its slash; an entry
  with no slash has none.
\<close>

definition entry_token :: "jsstring \<Rightarrow> jsstring option" where
  "entry_token e =
     (if ch CHR ''/'' \<in> set e then Some (takeWhile (\<lambda>c. c \<noteq> ch CHR ''/'') e) else None)"

definition hasBadge_spec :: "jsvalue \<Rightarrow> jsstring \<Rightarrow> bool" where
  "hasBadge_spec badges token =
     (case badges of
        Str s \<Rightarrow> s \<noteq> [] \<and> list_ex (\<lambda>e. entry_token e = Some token) (js_split (ch CHR '','') s)
      | _ \<Rightarrow> False)"

text \<open>An entry of the \<open>token/version\<close> shape has no second slash.\<close>

definition token_version_entry :: "jsstring \<Rightarrow> bool" where
  "token_version_entry e = (length (filter (\<lambda>c. c = ch CHR ''/'') e) \<le> 1)"

subsection \<open>Unescaping as the specification words it\<close>

text \<open>
  One pass from the left over the five escapes: what an escape produces is output and
  never read again, and the two code units of an escape are consumed together.
\<close>

fun unescape_pass :: "jsstring \<Rightarrow> jsstring" where
  "unescape_pass (x # y # s) =
     (if x = backslash \<and> y = ch CHR ''s'' then ch CHR '' '' # unescape_pass s
      else if x = backslash \<and> y = ch CHR ''n'' then ch (CHR 0x0A) # unescape_pass s
      else if x = backslash \<and> y = ch CHR ''r'' then ch (CHR 0x0D) # unescape_pass s
      else if x = backslash \<and> y = ch CHR '':'' then ch CHR '';'' # unescape_pass s
      else if x = backslash \<and> y = backslash then backslash # unescape_pass s
      else x # unescape_pass (y # s))"
| "unescape_pass s = s"

subsection \<open>Serializing a frame, and the frames of the grammar\<close>

text \<open>
  The line a frame is written back to: the command, the parameters joined by single
  spaces, then \<open>" :"\<close> and the trailing part when there is one.
\<close>

fun join_space :: "jsstring list \<Rightarrow> jsstring" where
  "join_space [] = []"
| "join_space [p] = p"
| "join_space (p # q # ps) = p @ ch CHR '' '' # join_space (q # ps)"

definition serialize :: "frame \<Rightarrow> jsstring" where
  "serialize f =
     join_space ((case command f of None \<Rightarrow> [] | Some c \<Rightarrow> [c]) @ params f)
       @ (case trailing f of None \<Rightarrow> [] | Some t \<Rightarrow> js '' :'' @ t)"

text \<open>
  The grammar \<open>verb params... :trailing\<close>: a parameter is a non-empty word with no
  space that does not begin with the trailing marker's colon; the verb is such a word
  that does not begin with the sentinel of the tag block either. The trailing part is
  any text.
\<close>

definition param_ok :: "jsstring \<Rightarrow> bool" where
  "param_ok p = (p \<noteq> [] \<and> ch CHR '' '' \<notin> set p \<and> \<not> js_startsWith p (js '':''))"

definition verb_ok :: "jsstring \<Rightarrow> bool" where
  "verb_ok c = (param_ok c \<and> \<not> js_startsWith c (js ''@''))"

definition well_formed :: "frame \<Rightarrow> bool" where
  "well_formed f =
     (case command f of None \<Rightarrow> False | Some c \<Rightarrow> verb_ok c \<and> list_all param_ok (params f))"

text \<open>
  What the tokenizer leaves in \<open>command\<close> and \<open>params\<close>, whatever the line was.
\<close>

definition frame_shape :: "frame \<Rightarrow> bool" where
  "frame_shape f =
     (list_all param_ok (params f)
      \<and> (case command f of None \<Rightarrow> True | Some c \<Rightarrow> c \<noteq> [] \<and> ch CHR '' '' \<notin> set c))"

text \<open>The chat-post line of the scenario, with its tags and its prefix.\<close>

definition privmsg_line :: jsstring where
  "privmsg_line =
     js (''@id=abc123;display-name=TestUser;badges=moderator/1,subscriber/24;mod=1;subscriber=1''
         @ '' :testuser!testuser@testuser.tmi.twitch.tv PRIVMSG #streamerchannel :Hello chat!'')"

section \<open>Numbers\<close>

text \<open>
  A JavaScript number is modelled as \<open>NaN\<close> or an exact rational: the rounding of
  IEEE doubles is left out, so the model agrees with the code on the values a double
  holds exactly (integers below \<open>2^53\<close>, amounts such as \<open>5.00\<close>).
\<close>

datatype number = NaN | Num rat

definition is_digit :: "jschar \<Rightarrow> bool" where
  "is_digit c = (ch CHR ''0'' \<le> c \<and> c \<le> ch CHR ''9'')"

text \<open>White space and line terminators, as \<open>parseInt\<close>, \<open>parseFloat\<close> and the class \<open>\<backslash>s\<close> see them.\<close>

definition is_space :: "jschar \<Rightarrow> bool" where
  "is_space c =
     (c \<in> {0x09, 0x0A, 0x0B, 0x0C, 0x0D, 0x20, 0xA0, 0x1680, 0x2028, 0x2029, 0x202F, 0x205F,
            0x3000, 0xFEFF}
      \<or> (0x2000 \<le> c \<and> c \<le> 0x200A))"

definition digits_value :: "jsstring \<Rightarrow> nat" where
  "digits_value ds = foldl (\<lambda>n c. 10 * n + unat (c - ch CHR ''0'')) 0 ds"

text \<open>\<open>parseInt(s, 10)\<close>, with \<open>None\<close> for \<open>NaN\<close>.\<close>

definition parseInt :: "jsstring \<Rightarrow> int option" where
  "parseInt s =
     (let t = dropWhile is_space s;
          neg = js_startsWith t (js ''-'');
          u = (if neg \<or> js_startsWith t (js ''+'') then tl t else t);
          ds = takeWhile is_digit u
      in if ds = [] then None
         else Some (if neg then - int (digits_value ds) else int (digits_value ds)))"

text \<open>\<open>s.slice(a, b)\<close> for any integers: a negative index counts from the end.\<close>

definition js_slice_int :: "'a list \<Rightarrow> int \<Rightarrow> int \<Rightarrow> 'a list" where
  "js_slice_int s a b =
     (let n = int (length s);
          from = (if a < 0 then max (n + a) 0 else min a n);
          to = (if b < 0 then max (n + b) 0 else min b n)
      in take (nat (to - from)) (drop (nat from) s))"

section \<open>The identity generator\<close>

text \<open>
  Modelled from the spec: \<open>uuidv5\<close> of \<open>core/index.js\<close>, which is not under
  \<open>src/\<close>. The specification describes deterministic, namespace-salted name hashing
  with one fixed 128-bit constant per platform; this is the name-based identifier of
  RFC 4122, version 5: the SHA-1 digest of the namespace's sixteen bytes followed by the
  name in UTF-8, with the version and variant bits set, written as 36 characters.
\<close>

unbundle bit_operations_syntax

type_synonym byte = "8 word"

text \<open>UTF-8 of a string; a surrogate is encoded like any other code unit.\<close>

definition utf8_encode :: "jsstring \<Rightarrow> byte list" where
  "utf8_encode s = concat (map (\<lambda>c.
       if c < 0x80 then [ucast c]
       else if c < 0x800 then [0xC0 OR ucast (drop_bit 6 c), 0x80 OR (ucast c AND 0x3F)]
       else [0xE0 OR ucast (drop_bit 12 c), 0x80 OR (ucast (drop_bit 6 c) AND 0x3F),
             0x80 OR (ucast c AND 0x3F)]) s)"

definition be_bytes :: "nat \<Rightarrow> 64 word \<Rightarrow> byte list" where
  "be_bytes k w = map (\<lambda>i. ucast (drop_bit (8 * (k - 1 - i)) w)) [0..<k]"

definition sha1_pad :: "byte list \<Rightarrow> byte list" where
  "sha1_pad m = m @ [0x80] @ replicate ((119 - length m mod 64) mod 64) 0 @ be_bytes 8 (of_nat (8 * length m))"

fun be_words :: "byte list \<Rightarrow> 32 word list" where
  "be_words (a # b # c # d # r) =
     (push_bit 24 (ucast a) OR push_bit 16 (ucast b) OR push_bit 8 (ucast c) OR ucast d) # be_words r"
| "be_words r = []"

primrec blocks :: "nat \<Rightarrow> 'a list \<Rightarrow> 'a list list" where
  "blocks 0 xs = []"
| "blocks (Suc k) xs = take 16 xs # blocks k (drop 16 xs)"

definition schedule :: "32 word list \<Rightarrow> 32 word list" where
  "schedule w16 = foldl (\<lambda>w i. w @ [word_rotl 1 (w ! (i - 3) XOR w ! (i - 8) XOR w ! (i - 14) XOR w ! (i - 16))])
      w16 [16..<80]"

type_synonym sha1_state = "32 word \<times> 32 word \<times> 32 word \<times> 32 word \<times> 32 word"

definition sha1_round :: "32 word list \<Rightarrow> sha1_state \<Rightarrow> nat \<Rightarrow> sha1_state" where
  "sha1_round w st i =
     (case st of (a, b, c, d, e) \<Rightarrow>
        let f = (if i < 20 then (b AND c) OR (NOT b AND d)
                 else if i < 40 then b XOR c XOR d
                 else if i < 60 then (b AND c) OR (b AND d) OR (c AND d)
                 else b XOR c XOR d);
            k = (if i < 20 then 0x5A827999 else if i < 40 then 0x6ED9EBA1
                 else if i < 60 then 0x8F1BBCDC else 0xCA62C1D6)
        in (word_rotl 5 a + f + e + k + w ! i, a, word_rotl 30 b, c, d))"

definition sha1_block :: "sha1_state \<Rightarrow> 32 word list \<Rightarrow> sha1_state" where
  "sha1_block h w16 =
     (case h of (h0, h1, h2, h3, h4) \<Rightarrow>
        case foldl (sha1_round (schedule w16)) h [0..<80] of (a, b, c, d, e) \<Rightarrow>
          (h0 + a, h1 + b, h2 + c, h3 + d, h4 + e))"

definition sha1 :: "byte list \<Rightarrow> byte list" where
  "sha1 m =
     (let p = be_words (sha1_pad m)
      in case foldl sha1_block (0x67452301, 0xEFCDAB89, 0x98BADCFE, 0x10325476, 0xC3D2E1F0)
                (blocks (length p div 16) p) of
           (h0, h1, h2, h3, h4) \<Rightarrow> concat (map (\<lambda>h. be_bytes 4 (ucast h)) [h0, h1, h2, h3, h4]))"

definition hex_value :: "jschar \<Rightarrow> nat option" where
  "hex_value c =
     (if ch CHR ''0'' \<le> c \<and> c \<le> ch CHR ''9'' then Some (unat (c - ch CHR ''0''))
      else if ch CHR ''a'' \<le> c \<and> c \<le> ch CHR ''f'' then Some (unat (c - ch CHR ''a'') + 10)
      else if ch CHR ''A'' \<le> c \<and> c \<le> ch CHR ''F'' then Some (unat (c - ch CHR ''A'') + 10)
      else None)"

fun hex_bytes :: "jsstring \<Rightarrow> byte list option" where
  "hex_bytes [] = Some []"
| "hex_bytes [c] = None"
| "hex_bytes (c # d # r) =
     (case (hex_value c, hex_value d, hex_bytes r) of
        (Some x, Some y, Some bs) \<Rightarrow> Some (of_nat (16 * x + y) # bs)
      | _ \<Rightarrow> None)"

definition uuid_parse :: "jsstring \<Rightarrow> byte list option" where
  "uuid_parse u =
     (case hex_bytes (filter (\<lambda>c. c \<noteq> ch CHR ''-'') u) of
        Some bs \<Rightarrow> if length bs = 16 then Some bs else None
      | None \<Rightarrow> None)"

definition hex_digit :: "nat \<Rightarrow> jschar" where
  "hex_digit n = js ''0123456789abcdef'' ! (n mod 16)"

definition hex_of :: "byte list \<Rightarrow> jsstring" where
  "hex_of bs = concat (map (\<lambda>b. [hex_digit (unat b div 16), hex_digit (unat b)]) bs)"

definition uuid_format :: "byte list \<Rightarrow> jsstring" where
  "uuid_format bs =
     hex_of (take 4 bs) @ js ''-'' @ hex_of (take 2 (drop 4 bs)) @ js ''-''
       @ hex_of (take 2 (drop 6 bs)) @ js ''-'' @ hex_of (take 2 (drop 8 bs)) @ js ''-''
       @ hex_of (take 6 (drop 10 bs))"

text \<open>
  \<open>uuidv5(name, namespace)\<close>; \<open>None\<close> when the namespace is not the text of a UUID.
\<close>

definition uuidv5 :: "jsstring \<Rightarrow> jsstring \<Rightarrow> jsstring option" where
  "uuidv5 name namespace =
     (case uuid_parse namespace of
        None \<Rightarrow> None
      | Some ns \<Rightarrow>
          let h = take 16 (sha1 (ns @ utf8_encode name));
              h' = h[6 := (h ! 6 AND 0x0F) OR 0x50, 8 := (h ! 8 AND 0x3F) OR 0x80]
          in Some (uuid_format h'))"

section \<open>The canonical message\<close>

text \<open>
  Modelled from the spec: the class \<open>ChatMessage\<close> of \<open>core/message.js\<close>, which is not
  under \<open>src/\<close>. The fields are those of the CanonicalMessage of the data model; the
  constructor stores its three arguments and leaves the optional fields unset, the
  flags false, the text and the emoji list empty. The field \<open>id\<close> is \<open>msg_id\<close> here.
\<close>

record chat_message =
  msg_id :: jsstring
  platform :: jsstring
  channel :: "jsstring option"
  username :: "jsstring option"
  avatar :: "jsstring option"
  message :: jsstring
  sent_at :: "number option"
  amount :: "number option"
  currency :: "jsstring option"
  is_verified :: bool
  is_sub :: bool
  is_mod :: bool
  is_owner :: bool
  is_placeholder :: bool
  emojis :: "(jsstring \<times> jsstring \<times> jsstring) list"
  extra :: "(string \<times> jsstring option) list"

definition ChatMessage :: "jsstring \<Rightarrow> jsstring \<Rightarrow> jsstring option \<Rightarrow> chat_message" where
  "ChatMessage i p c =
     \<lparr>msg_id = i, platform = p, channel = c, username = None, avatar = None, message = [],
      sent_at = None, amount = None, currency = None, is_verified = False, is_sub = False,
      is_mod = False, is_owner = False, is_placeholder = False, emojis = [], extra = []\<rparr>"

text \<open>
  What an adapter instance holds: \<open>this.namespace\<close>, \<open>this.platform\<close>,
  \<open>this.channel\<close>.
\<close>

record seed =
  seed_namespace :: jsstring
  seed_platform :: jsstring
  seed_channel :: "jsstring option"

text \<open>The calls of \<open>this.warn\<close> and \<open>this.log\<close>, with the strings they are given.\<close>

datatype diagnostic = Warn "jsstring list" | Log "jsstring list"

text \<open>\<open>a || d\<close> for a string or undefined \<open>a\<close>: the empty string is falsy.\<close>

definition str_or :: "jsstring option \<Rightarrow> jsstring \<Rightarrow> jsstring" where
  "str_or a d = (case a of None \<Rightarrow> d | Some s \<Rightarrow> if s = [] then d else s)"

section \<open>Twitch: from a frame to a message\<close>

definition emote_url :: "jsstring \<Rightarrow> jsstring" where
  "emote_url emoteId =
     js ''https://static-cdn.jtvnw.net/emoticons/v2/'' @ emoteId @ js ''/default/dark/1.0''"

text \<open>
  One position \<open>start-end\<close> of an emote: the first two pieces of \<open>pos.split('-')\<close>; a
  missing second piece is \<open>undefined\<close>, which \<open>parseInt\<close> turns into \<open>NaN\<close>.
\<close>

definition parse_position ::
  "jsstring \<Rightarrow> jsstring \<Rightarrow> jsstring \<Rightarrow> (jsstring \<times> jsstring \<times> jsstring) list" where
  "parse_position emoteId messageText pos =
     (case js_split (ch CHR ''-'') pos of
        [] \<Rightarrow> []
      | startStr # rest \<Rightarrow>
          (case (parseInt startStr, case rest of [] \<Rightarrow> None | endStr # _ \<Rightarrow> parseInt endStr) of
             (Some startPos, Some endPos) \<Rightarrow>
               if startPos \<le> endPos \<and> endPos < int (length messageText) then
                 (let emoteName = js_slice_int messageText startPos (endPos + 1)
                  in [(emoteName, emote_url emoteId, emoteName)])
               else []
           | _ \<Rightarrow> []))"

definition parse_group :: "jsstring \<Rightarrow> jsstring \<Rightarrow> (jsstring \<times> jsstring \<times> jsstring) list" where
  "parse_group messageText grp =
     (if grp = [] then []
      else (case js_indexOf grp (js '':'') of
              None \<Rightarrow> []
            | Some colonIdx \<Rightarrow>
                (let emoteId = js_slice grp 0 colonIdx;
                     positions = js_split (ch CHR '','') (js_sliceFrom grp (colonIdx + 1))
                 in concat (map (parse_position emoteId messageText) positions))))"

definition parseEmotes :: "jsstring option \<Rightarrow> jsstring \<Rightarrow> (jsstring \<times> jsstring \<times> jsstring) list" where
  "parseEmotes emotesStr messageText =
     (case emotesStr of
        None \<Rightarrow> []
      | Some e \<Rightarrow>
          if e = [] \<or> messageText = [] then []
          else concat (map (parse_group messageText) (js_split (ch CHR ''/'') e)))"

text \<open>
  \<open>prepareChatMessage(parsed)\<close>. The tags of a frame are always an object, so
  \<open>parsed.tags || parsed.meta || {}\<close> is \<open>parsed.tags\<close>. \<open>now\<close> is what \<open>Date.now()\<close>
  returns. The result is the warnings and the message, \<open>None\<close> for \<open>null\<close>.
\<close>

definition prepareChatMessage ::
  "seed \<Rightarrow> nat \<Rightarrow> frame \<Rightarrow> diagnostic list \<times> chat_message option" where
  "prepareChatMessage this now parsed =
     (let tgs = tags parsed;
          messageText = str_or (trailing parsed) [];
          username' = str_or (tgs (js ''display-name''))
                        (str_or (extractUsername (prefix parsed)) (js ''Unknown''))
      in if str_or (tgs (js ''id'')) [] = [] then
           ([Warn [js ''PRIVMSG missing id:'', raw parsed]], None)
         else
           (let badges = str_or (tgs (js ''badges'')) [];
                tmiSentTs = str_or (tgs (js ''tmi-sent-ts'')) []
            in ([], Some ((ChatMessage (str_or (tgs (js ''id'')) []) (seed_platform this) (seed_channel this))
                 \<lparr>message := messageText,
                  username := Some username',
                  sent_at := Some (if tmiSentTs = [] then Num (of_nat now)
                                   else (case parseInt tmiSentTs of
                                           None \<Rightarrow> NaN | Some n \<Rightarrow> Num (of_int n))),
                  is_owner := hasBadge (Str badges) (js ''broadcaster''),
                  is_mod := (tgs (js ''mod'') = Some (js ''1'') \<or> hasBadge (Str badges) (js ''moderator'')),
                  is_sub := (tgs (js ''subscriber'') = Some (js ''1'')
                             \<or> hasBadge (Str badges) (js ''subscriber'')),
                  is_verified := hasBadge (Str badges) (js ''partner''),
                  emojis := parseEmotes (tgs (js ''emotes'')) messageText,
                  extra := [(''userId'', tgs (js ''user-id'')),
                            (''color'', Some (str_or (tgs (js ''color'')) [])),
                            (''badges'', Some badges)]\<rparr>))))"

definition Twitch_namespace :: jsstring where
  "Twitch_namespace = js ''4a342b79-e302-403a-99be-669b5f27b152''"

text \<open>The adapter instance of the tests.\<close>

definition twitch_seed :: seed where
  "twitch_seed =
     \<lparr>seed_namespace = Twitch_namespace, seed_platform = js ''Twitch'',
      seed_channel = Some (js ''streamerchannel'')\<rparr>"

section \<open>YouTube: the currency and amount extractor\<close>

text \<open>The object literal \<open>currencyData\<close> of \<open>paymentValue\<close>, in the source's order.\<close>

definition currencyData :: "(jsstring \<times> jsstring) list" where
  "currencyData =
     [(js ''us$'', js ''USD''), (js ''a$'', js ''AUD''), (js ''c$'', js ''CAD''),
      (js ''clp$'', js ''CLP''), (js ''cop$'', js ''COP''), (js ''hk$'', js ''HKD''),
      (js ''mx$'', js ''MXN''), (js ''nt$'', js ''TWD''), (js ''nz$'', js ''NZD''),
      (js ''r$'', js ''BRL''), (js ''rd$'', js ''DOP''), (js ''s$'', js ''SGD''),
      (js ''s/'', js ''PEN''), (js ''b/.'', js ''PAB''), (js ''bs.'', js ''BOB''),
      ([0x043B, 0x0432], js ''BGN''), ([0x0434, 0x0435, 0x043D], js ''MKD''),
      ([0x0434, 0x0438, 0x043D] @ js ''.'', js ''RSD''),
      ([0x0631] @ js ''.'' @ [0x0633], js ''SAR''),
      ([0x062F] @ js ''.'' @ [0x0625], js ''AED''), (js ''br'', js ''BYN''),
      (js ''kn'', js ''HRK''), (js ''k'' @ [0x010D], js ''CZK''), (js ''kr'', js ''SEK''),
      (js ''ft'', js ''HUF''), (js ''z'' @ [0x0142], js ''PLN''), (js ''cfa'', js ''XOF''),
      (js ''ush'', js ''UGX''), (js ''lei'', js ''RON''), (js ''chf'', js ''CHF''),
      ([0x20AC], js ''EUR''), ([0x00A3], js ''GBP''), ([0x00A5], js ''JPY''),
      ([0x20A9], js ''KRW''), ([0x20B9], js ''INR''), ([0x20AA], js ''ILS''),
      ([0x20B1], js ''PHP''), ([0x20BD], js ''RUB''), ([0x20BA], js ''TRY''),
      ([0x20A6], js ''NGN''), ([0x20B2], js ''PYG''), ([0x20A1], js ''CRC''),
      (js ''q'', js ''GTQ''), (js ''l'', js ''HNL''), (js ''$'', js ''USD''),
      (js ''r'', js ''ZAR''), (js ''aed'', js ''AED''), (js ''ars'', js ''ARS''),
      (js ''aud'', js ''AUD''), (js ''bgn'', js ''BGN''), (js ''bob'', js ''BOB''),
      (js ''brl'', js ''BRL''), (js ''byn'', js ''BYN''), (js ''cad'', js ''CAD''),
      (js ''chf'', js ''CHF''), (js ''clp'', js ''CLP''), (js ''cop'', js ''COP''),
      (js ''crc'', js ''CRC''), (js ''czk'', js ''CZK''), (js ''dkk'', js ''DKK''),
      (js ''dop'', js ''DOP''), (js ''eur'', js ''EUR''), (js ''gbp'', js ''GBP''),
      (js ''gtq'', js ''GTQ''), (js ''hkd'', js ''HKD''), (js ''hnl'', js ''HNL''),
      (js ''hrk'', js ''HRK''), (js ''huf'', js ''HUF''), (js ''ils'', js ''ILS''),
      (js ''inr'', js ''INR''), (js ''isk'', js ''ISK''), (js ''jpy'', js ''JPY''),
      (js ''krw'', js ''KRW''), (js ''mkd'', js ''MKD''), (js ''mxn'', js ''MXN''),
      (js ''ngn'', js ''NGN''), (js ''nio'', js ''NIO''), (js ''nok'', js ''NOK''),
      (js ''nzd'', js ''NZD''), (js ''pab'', js ''PAB''), (js ''pen'', js ''PEN''),
      (js ''php'', js ''PHP''), (js ''pln'', js ''PLN''), (js ''pyg'', js ''PYG''),
      (js ''ron'', js ''RON''), (js ''rsd'', js ''RSD''), (js ''rub'', js ''RUB''),
      (js ''sar'', js ''SAR''), (js ''sek'', js ''SEK''), (js ''sgd'', js ''SGD''),
      (js ''twd'', js ''TWD''), (js ''try'', js ''TRY''), (js ''ugx'', js ''UGX''),
      (js ''usd'', js ''USD''), (js ''xof'', js ''XOF''), (js ''zar'', js ''ZAR'')]"

text \<open>
  \<open>Object.keys\<close> lists each key once, where it first appears; reading a key gives the
  value written last.
\<close>

definition object_keys :: "('k \<times> 'v) list \<Rightarrow> 'k list" where
  "object_keys kvs = rev (remdups (rev (map fst kvs)))"

definition object_get :: "('k \<times> 'v) list \<Rightarrow> 'k \<Rightarrow> 'v option" where
  "object_get kvs k = map_of (rev kvs) k"

text \<open>
  The alternatives of the regular expression: the keys sorted by length, longest first.
  \<open>Array.prototype.sort\<close> is stable, as \<open>sort_key\<close> is. Every key is escaped, so it
  stands for itself.
\<close>

definition symbols :: "jsstring list" where
  "symbols = sort_key (\<lambda>s. - int (length s)) (object_keys currencyData)"

text \<open>
  With the flag \<open>i\<close> and without the flag \<open>u\<close>, two code units match when their
  simple uppercase mappings agree, and a code unit above 127 never matches an ASCII one.
  The mapping is written out where it decides a match against a code unit of the table:
  the Latin letters, U+010D and U+0142, the Cyrillic letters U+0430 to U+044F, and
  U+1C80 and U+1C81, whose capitals are the Cyrillic U+0412 and U+0414. No other code
  unit shares its capital with a code unit of the table.
\<close>

definition canonicalize :: "jschar \<Rightarrow> jschar" where
  "canonicalize c =
     (if ch CHR ''a'' \<le> c \<and> c \<le> ch CHR ''z'' then c - 32
      else if c = 0x010D then 0x010C
      else if c = 0x0142 then 0x0141
      else if 0x0430 \<le> c \<and> c \<le> 0x044F then c - 32
      else if c = 0x1C80 then 0x0412
      else if c = 0x1C81 then 0x0414
      else c)"

text \<open>\<open>toLowerCase\<close>, on the code units that a matched symbol can hold.\<close>

definition toLowerCase :: "jschar \<Rightarrow> jschar" where
  "toLowerCase c =
     (if ch CHR ''A'' \<le> c \<and> c \<le> ch CHR ''Z'' then c + 32
      else if c = 0x010C then 0x010D
      else if c = 0x0141 then 0x0142
      else if 0x0410 \<le> c \<and> c \<le> 0x042F then c + 32
      else c)"

text \<open>A literal matched at the start of the text, ignoring case.\<close>

fun matches_literal :: "jsstring \<Rightarrow> jsstring \<Rightarrow> bool" where
  "matches_literal [] s = True"
| "matches_literal (p # ps) [] = False"
| "matches_literal (p # ps) (c # s) = (canonicalize c = canonicalize p \<and> matches_literal ps s)"

text \<open>
  The matcher backtracks: each piece of the pattern gives the ways it can match at the
  start of the text, in the order the engine tries them, each with the text matched and
  the text left.
\<close>

text \<open>The group \<open>(symbols)\<close>: the alternatives in their order.\<close>

definition symbol_splits :: "jsstring \<Rightarrow> (jsstring \<times> jsstring) list" where
  "symbol_splits s =
     concat (map (\<lambda>p. if matches_literal p s then [(take (length p) s, drop (length p) s)] else [])
               symbols)"

text \<open>A greedy star over a class of code units: the longest run first.\<close>

fun star_splits :: "(jschar \<Rightarrow> bool) \<Rightarrow> jsstring \<Rightarrow> (jsstring \<times> jsstring) list" where
  "star_splits P [] = [([], [])]"
| "star_splits P (c # s) =
     (if P c then map (\<lambda>(m, r). (c # m, r)) (star_splits P s) @ [([], c # s)]
      else [([], c # s)])"

text \<open>\<open>\<backslash>s*\<close>: only the text left matters.\<close>

definition space_splits :: "jsstring \<Rightarrow> jsstring list" where
  "space_splits s = map snd (star_splits is_space s)"

text \<open>\<open>[\<backslash>d,]+\<close>\<close>

definition digits_splits :: "jsstring \<Rightarrow> (jsstring \<times> jsstring) list" where
  "digits_splits s =
     filter (\<lambda>(m, r). m \<noteq> []) (star_splits (\<lambda>c. is_digit c \<or> c = ch CHR '','') s)"

text \<open>\<open>(?:\<backslash>.\<backslash>d{1,2})?\<close>: two decimals, then one, then none.\<close>

fun fraction_splits :: "jsstring \<Rightarrow> (jsstring \<times> jsstring) list" where
  "fraction_splits (p # d # e # r) =
     (if p = ch CHR ''.'' \<and> is_digit d then
        (if is_digit e then [([p, d, e], r), ([p, d], e # r), ([], p # d # e # r)]
         else [([p, d], e # r), ([], p # d # e # r)])
      else [([], p # d # e # r)])"
| "fraction_splits [p, d] =
     (if p = ch CHR ''.'' \<and> is_digit d then [([p, d], []), ([], [p, d])] else [([], [p, d])])"
| "fraction_splits s = [([], s)]"

text \<open>The group \<open>([\<backslash>d,]+(?:\<backslash>.\<backslash>d{1,2})?)\<close>.\<close>

definition amount_splits :: "jsstring \<Rightarrow> (jsstring \<times> jsstring) list" where
  "amount_splits s =
     concat (map (\<lambda>(d, r). map (\<lambda>(f, r'). (d @ f, r')) (fraction_splits r)) (digits_splits s))"

text \<open>\<open>\<backslash>s*$\<close>: what is left is white space.\<close>

definition at_end :: "jsstring \<Rightarrow> bool" where
  "at_end s = list_all is_space s"

text \<open>
  The two alternatives after the leading white space, with the groups they capture:
  symbol and amount (groups 1 and 2), amount and symbol (groups 3 and 4).
\<close>

definition symbol_first :: "jsstring \<Rightarrow> (jsstring \<times> jsstring) list" where
  "symbol_first s =
     [(symb, amt). (symb, r1) \<leftarrow> symbol_splits s, r2 \<leftarrow> space_splits r1,
                  (amt, r3) \<leftarrow> amount_splits r2, at_end r3]"

definition amount_first :: "jsstring \<Rightarrow> (jsstring \<times> jsstring) list" where
  "amount_first s =
     [(symb, amt). (amt, r1) \<leftarrow> amount_splits s, r2 \<leftarrow> space_splits r1,
                  (symb, r3) \<leftarrow> symbol_splits r2, at_end r3]"

text \<open>
  \<open>paymentText.match(paymentRegex)\<close>: the first way to match the whole text, as the
  symbol and the amount it captures, or \<open>None\<close> for \<open>null\<close>. Of the groups 1 and 4 one
  is set, and so of the groups 2 and 3.
\<close>

definition paymentRegex_match :: "jsstring \<Rightarrow> (jsstring \<times> jsstring) option" where
  "paymentRegex_match s =
     (case concat (map (\<lambda>r0. symbol_first r0 @ amount_first r0) (space_splits s)) of
        [] \<Rightarrow> None
      | m # _ \<Rightarrow> Some m)"

text \<open>
  \<open>parseFloat\<close> on what this caller passes: decimal digits, then possibly a point and
  digits. No digit at all gives \<open>NaN\<close>.
\<close>

definition parseFloat :: "jsstring \<Rightarrow> number" where
  "parseFloat s =
     (let ip = takeWhile is_digit s;
          r = dropWhile is_digit s;
          fp = (if js_startsWith r (js ''.'') then takeWhile is_digit (tl r) else [])
      in if ip = [] \<and> fp = [] then NaN
         else Num (of_nat (digits_value ip) + of_nat (digits_value fp) / 10 ^ length fp))"

text \<open>\<open>paymentValue(paymentText)\<close>: the pair \<open>[currencyCode, amount]\<close>, \<open>None\<close> for \<open>null\<close>.\<close>

definition paymentValue :: "jsstring \<Rightarrow> jsstring option \<times> number option" where
  "paymentValue paymentText =
     (case paymentRegex_match paymentText of
        None \<Rightarrow> (None, None)
      | Some (symb, amountString) \<Rightarrow>
          (let currencySymbol = map toLowerCase symb;
               amount' = parseFloat (filter (\<lambda>c. c \<noteq> ch CHR '','') amountString);
               currencyCode = object_get currencyData currencySymbol
           in (currencyCode, Some amount')))"

subsection \<open>The match as one scan\<close>

text \<open>
  The classes of code units the pattern reads, and a text that one of the alternatives
  of the symbol group matches in full.
\<close>

definition digit_or_comma :: "jschar \<Rightarrow> bool" where
  "digit_or_comma c = (is_digit c \<or> c = ch CHR '','')"

definition is_fraction :: "jsstring \<Rightarrow> bool" where
  "is_fraction f =
     (case f of
        [] \<Rightarrow> True
      | [p, d] \<Rightarrow> p = ch CHR ''.'' \<and> is_digit d
      | [p, d, e] \<Rightarrow> p = ch CHR ''.'' \<and> is_digit d \<and> is_digit e
      | _ \<Rightarrow> False)"

definition ok_unit :: "jschar \<Rightarrow> bool" where
  "ok_unit c = (\<not> is_space c \<and> \<not> digit_or_comma c)"

definition fraction_unit :: "jschar \<Rightarrow> bool" where
  "fraction_unit c = (c = ch CHR ''.'' \<or> is_digit c)"

definition is_symbol_text :: "jsstring \<Rightarrow> bool" where
  "is_symbol_text t = list_ex (\<lambda>p. length p = length t \<and> matches_literal p t) symbols"

text \<open>
  The same match found by one scan from the left, with no backtracking: the symbol is
  the run of code units that are neither white space, digits nor commas, the amount the
  run of digits and commas with the run of points and digits after it.
\<close>

definition scan_symbol_first :: "jsstring \<Rightarrow> (jsstring \<times> jsstring) option" where
  "scan_symbol_first s =
     (let y = takeWhile ok_unit s;
          r1 = dropWhile is_space (dropWhile ok_unit s);
          d = takeWhile digit_or_comma r1;
          f = takeWhile fraction_unit (dropWhile digit_or_comma r1);
          r3 = dropWhile fraction_unit (dropWhile digit_or_comma r1)
      in if is_symbol_text y \<and> d \<noteq> [] \<and> is_fraction f \<and> list_all is_space r3
         then Some (y, d @ f) else None)"

definition scan_amount_first :: "jsstring \<Rightarrow> (jsstring \<times> jsstring) option" where
  "scan_amount_first s =
     (let d = takeWhile digit_or_comma s;
          f = takeWhile fraction_unit (dropWhile digit_or_comma s);
          r2 = dropWhile is_space (dropWhile fraction_unit (dropWhile digit_or_comma s));
          y = takeWhile ok_unit r2;
          r3 = dropWhile ok_unit r2
      in if d \<noteq> [] \<and> is_fraction f \<and> is_symbol_text y \<and> list_all is_space r3
         then Some (y, d @ f) else None)"

definition scan_payment :: "jsstring \<Rightarrow> (jsstring \<times> jsstring) option" where
  "scan_payment s =
     (case scan_symbol_first (dropWhile is_space s) of
        Some m \<Rightarrow> Some m
      | None \<Rightarrow> scan_amount_first (dropWhile is_space s))"

section \<open>YouTube: from actions to messages\<close>

text \<open>
  The actions are JSON objects; every property the adapter reads is optional, \<open>None\<close>
  standing for \<open>undefined\<close>. The properties \<open>id\<close>, \<open>message\<close>, \<open>text\<close>, \<open>emoji\<close> and
  \<open>image\<close> are \<open>renderer_id\<close>, \<open>renderer_message\<close>, \<open>run_text\<close>, \<open>run_emoji\<close> and
  \<open>emoji_image\<close> here.
\<close>

record thumbnail =
  url :: "jsstring option"

record photo =
  thumbnails :: "thumbnail list option"

record text_holder =
  simpleText :: "jsstring option"

record emoji =
  emojiId :: "jsstring option"
  emoji_image :: "photo option"

record run =
  run_text :: "jsstring option"
  run_emoji :: "emoji option"

record message_body =
  runs :: "run list option"

record icon =
  iconType :: "jsstring option"

record badge_renderer =
  icon :: "icon option"
  customThumbnail :: "photo option"

record badge =
  liveChatAuthorBadgeRenderer :: "badge_renderer option"

text \<open>
  One record for every renderer: the timestamp is the number the property converts to,
  the count of gifted memberships an integer.
\<close>

record renderer =
  renderer_id :: "jsstring option"
  authorName :: "text_holder option"
  authorPhoto :: "photo option"
  timestampUsec :: "nat option"
  authorBadges :: "badge list option"
  purchaseAmountText :: "text_holder option"
  renderer_message :: "message_body option"
  numGiftedMembers :: "int option"

record item =
  liveChatTextMessageRenderer :: "renderer option"
  liveChatPaidMessageRenderer :: "renderer option"
  liveChatMembershipGiftingEventRenderer :: "renderer option"
  liveChatGiftMembershipReceivedEventRenderer :: "renderer option"
  liveChatPlaceholderItemRenderer :: "renderer option"

record action =
  item :: "item option"

text \<open>The inner function \<open>hasBadge\<close> of \<open>prepareChatMessages\<close>.\<close>

definition hasBadge_icon :: "badge list option \<Rightarrow> jsstring \<Rightarrow> bool" where
  "hasBadge_icon badges iconType' =
     (case badges of
        None \<Rightarrow> False
      | Some bs \<Rightarrow>
          list_ex (\<lambda>b. (case liveChatAuthorBadgeRenderer b of
                           None \<Rightarrow> None
                         | Some r \<Rightarrow> (case icon r of None \<Rightarrow> None | Some i \<Rightarrow> iconType i))
                        = Some iconType') bs)"

definition isMember :: "badge list option \<Rightarrow> bool" where
  "isMember badges =
     (case badges of
        None \<Rightarrow> False
      | Some bs \<Rightarrow>
          list_ex (\<lambda>b. (case liveChatAuthorBadgeRenderer b of
                           None \<Rightarrow> False
                         | Some r \<Rightarrow> customThumbnail r \<noteq> None)) bs)"

text \<open>
  \<open>parseInt(timestampUsec / 1000)\<close>: the whole milliseconds, for a timestamp below
  \<open>10^24\<close>, and \<open>NaN\<close> for a missing one.
\<close>

definition sent_at_of :: "nat option \<Rightarrow> number" where
  "sent_at_of t = (case t of None \<Rightarrow> NaN | Some u \<Rightarrow> Num (of_nat (u div 1000)))"

text \<open>A value inside a template literal: \<open>undefined\<close> is written out.\<close>

definition template_str :: "jsstring option \<Rightarrow> jsstring" where
  "template_str s = (case s of None \<Rightarrow> js ''undefined'' | Some t \<Rightarrow> t)"

function show_nat :: "nat \<Rightarrow> jsstring" where
  "show_nat n =
     (if n < 10 then [ch CHR ''0'' + of_nat n]
      else show_nat (n div 10) @ [ch CHR ''0'' + of_nat (n mod 10)])"
  by pat_completeness auto
termination
  by (relation "measure id") auto

definition template_int :: "int option \<Rightarrow> jsstring" where
  "template_int n =
     (case n of
        None \<Rightarrow> js ''undefined''
      | Some i \<Rightarrow> if i < 0 then js ''-'' @ show_nat (nat (- i)) else show_nat (nat i))"

text \<open>
  \<open>x.thumbnails.at(-1).url\<close> with no guard: a missing photo, a missing list and an
  empty list each raise.
\<close>

definition last_thumbnail_url :: "photo option \<Rightarrow> error + jsstring option" where
  "last_thumbnail_url p =
     (case p of
        None \<Rightarrow> Inl TypeError
      | Some ph \<Rightarrow>
          (case thumbnails ph of
             None \<Rightarrow> Inl TypeError
           | Some ts \<Rightarrow> if ts = [] then Inl TypeError else Inr (url (last ts))))"

text \<open>\<open>run.emoji.image?.thumbnails?.at(-1)?.url || ''\<close>\<close>

definition emoji_url :: "emoji \<Rightarrow> jsstring" where
  "emoji_url e =
     (case emoji_image e of
        None \<Rightarrow> []
      | Some ph \<Rightarrow>
          (case thumbnails ph of
             None \<Rightarrow> []
           | Some ts \<Rightarrow> if ts = [] then [] else str_or (url (last ts)) []))"

text \<open>\<open>uuidv5(id, this.namespace)\<close>, raising where the identifier cannot be made.\<close>

definition make_id :: "seed \<Rightarrow> jsstring option \<Rightarrow> error + jsstring" where
  "make_id this native =
     (case native of
        None \<Rightarrow> Inl TypeError
      | Some n \<Rightarrow> (case uuidv5 n (seed_namespace this) of None \<Rightarrow> Inl TypeError | Some u \<Rightarrow> Inr u))"

text \<open>One step of \<open>renderer.message.runs.forEach\<close>.\<close>

definition add_run :: "diagnostic list \<times> chat_message \<Rightarrow> run \<Rightarrow> diagnostic list \<times> chat_message" where
  "add_run dm r =
     (case dm of (d, m) \<Rightarrow>
        (case run_text r of
           Some t \<Rightarrow> (d, m\<lparr>message := message m @ t\<rparr>)
         | None \<Rightarrow>
             (case run_emoji r of
                Some e \<Rightarrow>
                  (d, m\<lparr>message := message m @ js '':'' @ template_str (emojiId e) @ js '': '',
                        emojis := emojis m @ [(js '':'' @ template_str (emojiId e) @ js '':'',
                                               emoji_url e, template_str (emojiId e))]\<rparr>)
              | None \<Rightarrow> (d @ [Log [js ''[CHUCK::YouTube] Unknown run.'']], m))))"

text \<open>
  Lines 192 to 200: the amount of a paid message. Reading \<open>simpleText\<close> of a missing
  \<open>purchaseAmountText\<close> raises, and so does \<open>match\<close> on a missing text.
\<close>

definition set_payment :: "renderer \<Rightarrow> chat_message \<Rightarrow> diagnostic list \<times> (error + chat_message)" where
  "set_payment r m =
     (case purchaseAmountText r of
        None \<Rightarrow> ([], Inl TypeError)
      | Some h \<Rightarrow>
          (case simpleText h of
             None \<Rightarrow> ([], Inl TypeError)
           | Some paymentText \<Rightarrow>
               (case paymentValue paymentText of
                  (Some currency', Some amount') \<Rightarrow>
                    ([], Inr (m\<lparr>amount := Some amount', currency := Some currency'\<rparr>))
                | _ \<Rightarrow>
                    ([Warn [js ''Could not parse SuperChat currency or amount.'', paymentText]],
                     Inr m))))"

text \<open>
  Lines 172 to 216: a text message or a paid message. The renderer is the text renderer
  when there is one, the paid renderer otherwise; the amount is read when the paid
  renderer is there.
\<close>

definition prepare_text_or_paid ::
  "seed \<Rightarrow> item \<Rightarrow> renderer \<Rightarrow> diagnostic list \<times> (error + chat_message option)" where
  "prepare_text_or_paid this it r =
     (case (authorName r, authorPhoto r) of
        (Some name, Some ph) \<Rightarrow>
          (case thumbnails ph of
             None \<Rightarrow> ([], Inr None)
           | Some ts \<Rightarrow>
               if str_or (renderer_id r) [] = [] \<or> ts = [] then ([], Inr None)
               else
                 (case make_id this (renderer_id r) of
                    Inl e \<Rightarrow> ([], Inl e)
                  | Inr uid \<Rightarrow>
                      (let m = (ChatMessage uid (seed_platform this) (seed_channel this))
                             \<lparr>username := simpleText name,
                              avatar := url (last ts),
                              sent_at := Some (sent_at_of (timestampUsec r)),
                              is_verified := hasBadge_icon (authorBadges r) (js ''VERIFIED''),
                              is_sub := isMember (authorBadges r),
                              is_mod := hasBadge_icon (authorBadges r) (js ''MODERATOR''),
                              is_owner := hasBadge_icon (authorBadges r) (js ''OWNER'')\<rparr>;
                           paid = (if liveChatPaidMessageRenderer it \<noteq> None then set_payment r m
                                   else ([], Inr m))
                       in case paid of
                            (d, Inl e) \<Rightarrow> (d, Inl e)
                          | (d, Inr m') \<Rightarrow>
                              (case renderer_message r of
                                 None \<Rightarrow> (d, Inr (Some m'))
                               | Some body \<Rightarrow>
                                   (case runs body of
                                      None \<Rightarrow> (d, Inr (Some m'))
                                    | Some rs \<Rightarrow>
                                        (case foldl add_run (d, m') rs of
                                           (d', m'') \<Rightarrow> (d', Inr (Some m''))))))))
      | _ \<Rightarrow> ([], Inr None))"

text \<open>
  Lines 217 to 246: the two membership-gift events. \<open>received\<close> tells the gift-received
  event from the gifting event; they differ in the text and in the amount.
\<close>

definition prepare_gift :: "seed \<Rightarrow> bool \<Rightarrow> renderer \<Rightarrow> error + chat_message" where
  "prepare_gift this received ev =
     (case make_id this (renderer_id ev) of
        Inl e \<Rightarrow> Inl e
      | Inr uid \<Rightarrow>
          (case authorName ev of
             None \<Rightarrow> Inl TypeError
           | Some name \<Rightarrow>
               (case last_thumbnail_url (authorPhoto ev) of
                  Inl e \<Rightarrow> Inl e
                | Inr u \<Rightarrow>
                    Inr ((ChatMessage uid (seed_platform this) (seed_channel this))
                      \<lparr>username := simpleText name,
                       avatar := u,
                       sent_at := Some (sent_at_of (timestampUsec ev)),
                       message :=
                         (if received then
                            template_str (simpleText name) @ js '' received a gifted membership!''
                          else
                            template_str (simpleText name) @ js '' gifted ''
                              @ template_int (numGiftedMembers ev) @ js '' memberships!''),
                       currency := Some (js ''USD''),
                       amount :=
                         Some (if received then
                                 (case numGiftedMembers ev of
                                    None \<Rightarrow> NaN | Some n \<Rightarrow> Num (of_int n * 5))
                               else Num 5)\<rparr>))))"

text \<open>Lines 247 to 259: a placeholder item.\<close>

definition prepare_placeholder :: "seed \<Rightarrow> renderer \<Rightarrow> error + chat_message" where
  "prepare_placeholder this ph =
     (case make_id this (renderer_id ph) of
        Inl e \<Rightarrow> Inl e
      | Inr uid \<Rightarrow>
          Inr ((ChatMessage uid (seed_platform this) (seed_channel this))
            \<lparr>sent_at := Some (sent_at_of (timestampUsec ph)), is_placeholder := True\<rparr>))"

text \<open>
  The function mapped over the actions: the diagnostics, and an error, a message, or
  \<open>None\<close> for \<open>null\<close>. The test \<open>typeof x !== undefined\<close> of line 247 always holds, so the
  last \<open>else\<close> is never taken.
\<close>

definition prepare_action :: "seed \<Rightarrow> action option \<Rightarrow> diagnostic list \<times> (error + chat_message option)" where
  "prepare_action this a =
     (case (case a of None \<Rightarrow> None | Some act \<Rightarrow> item act) of
        None \<Rightarrow> ([], Inr None)
      | Some it \<Rightarrow>
          (case (liveChatTextMessageRenderer it, liveChatPaidMessageRenderer it) of
             (Some r, _) \<Rightarrow> prepare_text_or_paid this it r
           | (None, Some r) \<Rightarrow> prepare_text_or_paid this it r
           | (None, None) \<Rightarrow>
               (case liveChatMembershipGiftingEventRenderer it of
                  Some ev \<Rightarrow> ([], map_sum id Some (prepare_gift this False ev))
                | None \<Rightarrow>
                    (case liveChatGiftMembershipReceivedEventRenderer it of
                       Some ev \<Rightarrow> ([], map_sum id Some (prepare_gift this True ev))
                     | None \<Rightarrow>
                         (case liveChatPlaceholderItemRenderer it of
                            Some ph \<Rightarrow> ([], map_sum id Some (prepare_placeholder this ph))
                          | None \<Rightarrow> ([], Inr None))))))"

text \<open>
  \<open>Promise.all\<close> over the mapped actions, then the filter: every action is processed, the
  first rejection rejects the whole, and otherwise the messages that are not \<open>null\<close> are
  kept in order.
\<close>

fun collect :: "(error + chat_message option) list \<Rightarrow> error + chat_message list" where
  "collect [] = Inr []"
| "collect (Inl e # rs) = Inl e"
| "collect (Inr x # rs) =
     (case collect rs of
        Inl e \<Rightarrow> Inl e
      | Inr ms \<Rightarrow> Inr (case x of None \<Rightarrow> ms | Some m \<Rightarrow> m # ms))"

definition prepareChatMessages ::
  "seed \<Rightarrow> action option list \<Rightarrow> diagnostic list \<times> (error + chat_message list)" where
  "prepareChatMessages this actions =
     (let rs = map (prepare_action this) actions
      in (concat (map fst rs), collect (map snd rs)))"

definition YouTube_namespace :: jsstring where
  "YouTube_namespace = js ''fd60ac36-d6b5-49dc-aee6-b0d87d130582''"

text \<open>The adapter instance of the tests.\<close>

definition youtube_seed :: seed where
  "youtube_seed =
     \<lparr>seed_namespace = YouTube_namespace, seed_platform = js ''YouTube'',
      seed_channel = Some (js ''TestChannel'')\<rparr>"

text \<open>The monetary fields of a message are set together or not at all.\<close>

definition money_consistent :: "chat_message \<Rightarrow> bool" where
  "money_consistent m = (amount m = None \<longleftrightarrow> currency m = None)"

subsection \<open>The actions of the tests\<close>

text \<open>
  The paid message of the test on currency formats, with the purchase text left open,
  and the message it is turned into, given the identifier and the monetary fields.
\<close>

definition paid_renderer :: "jsstring \<Rightarrow> renderer" where
  "paid_renderer t =
     \<lparr>renderer_id = Some (js ''currency-test''),
      authorName = Some \<lparr>simpleText = Some (js ''@Donor'')\<rparr>,
      authorPhoto = Some \<lparr>thumbnails = Some [\<lparr>url = Some (js ''https://example.com/a.jpg'')\<rparr>]\<rparr>,
      timestampUsec = Some 1234567890000000,
      authorBadges = None,
      purchaseAmountText = Some \<lparr>simpleText = Some t\<rparr>,
      renderer_message = Some \<lparr>runs = Some [\<lparr>run_text = Some (js ''Thanks!''), run_emoji = None\<rparr>]\<rparr>,
      numGiftedMembers = None\<rparr>"

definition paid_action :: "jsstring \<Rightarrow> action" where
  "paid_action t =
     \<lparr>item = Some \<lparr>liveChatTextMessageRenderer = None,
                    liveChatPaidMessageRenderer = Some (paid_renderer t),
                    liveChatMembershipGiftingEventRenderer = None,
                    liveChatGiftMembershipReceivedEventRenderer = None,
                    liveChatPlaceholderItemRenderer = None\<rparr>\<rparr>"

definition paid_message :: "seed \<Rightarrow> jsstring \<Rightarrow> number option \<Rightarrow> jsstring option \<Rightarrow> chat_message" where
  "paid_message this uid a c =
     (ChatMessage uid (seed_platform this) (seed_channel this))
       \<lparr>username := Some (js ''@Donor''),
        avatar := Some (js ''https://example.com/a.jpg''),
        message := js ''Thanks!'',
        sent_at := Some (Num 1234567890000),
        amount := a,
        currency := c\<rparr>"

text \<open>A membership-gift event, gifting or received, with five memberships.\<close>

definition gift_renderer :: renderer where
  "gift_renderer =
     \<lparr>renderer_id = Some (js ''gift-1''),
      authorName = Some \<lparr>simpleText = Some (js ''@Gifter'')\<rparr>,
      authorPhoto = Some \<lparr>thumbnails = Some [\<lparr>url = Some (js ''https://example.com/g.jpg'')\<rparr>]\<rparr>,
      timestampUsec = Some 1234567890000000,
      authorBadges = None,
      purchaseAmountText = None,
      renderer_message = None,
      numGiftedMembers = Some 5\<rparr>"

definition gift_item :: "bool \<Rightarrow> item" where
  "gift_item received =
     \<lparr>liveChatTextMessageRenderer = None,
      liveChatPaidMessageRenderer = None,
      liveChatMembershipGiftingEventRenderer = (if received then None else Some gift_renderer),
      liveChatGiftMembershipReceivedEventRenderer = (if received then Some gift_renderer else None),
      liveChatPlaceholderItemRenderer = None\<rparr>"

section \<open>The command dispatcher\<close>

text \<open>
  Modelled from the spec: \<open>Seed.onChatSocketMessage\<close> and \<open>Seed.handleServerCommand\<close> of
  \<open>core/seed.js\<close>, which is not under \<open>src/\<close>; only their tests are. The specification
  has the dispatcher parse the raw text as an envelope with a string \<open>type\<close> and any
  \<open>data\<close>, ignore unparsable text and a missing discriminator (logging only in verbose
  mode), route a recognized discriminator to its handler with \<open>data\<close> unchanged, and
  log and drop an unrecognized one. \<open>JSON.parse\<close> is a parameter, \<open>None\<close> where it throws.
\<close>

datatype json =
  JNull | JBool bool | JNum rat | JStr jsstring | JArr "json list" | JObj "(jsstring \<times> json) list"

text \<open>A property of a parsed value, \<open>None\<close> for \<open>undefined\<close>.\<close>

definition property :: "json \<Rightarrow> jsstring \<Rightarrow> json option" where
  "property v k = (case v of JObj kvs \<Rightarrow> object_get kvs k | _ \<Rightarrow> None)"

text \<open>
  What the dispatcher does: it invokes the handler of a command with the data it was
  given, or it writes a line to the debug log.
\<close>

datatype dispatched = Invoked jsstring "json option" | Debug "jsstring list"

text \<open>The discriminators with a handler; \<open>inject_message\<close> is the one that is specified.\<close>

definition recognized :: "jsstring list" where
  "recognized = [js ''inject_message'']"

definition handleServerCommand :: "jsstring \<Rightarrow> json option \<Rightarrow> dispatched list" where
  "handleServerCommand cmd data =
     (if cmd \<in> set recognized then [Invoked cmd data]
      else [Debug [js ''Unknown server command:'', cmd]])"

definition ignored :: "bool \<Rightarrow> dispatched list" where
  "ignored verbose = (if verbose then [Debug [js ''Ignored chat socket message'']] else [])"

definition onChatSocketMessage ::
  "(jsstring \<Rightarrow> json option) \<Rightarrow> bool \<Rightarrow> jsvalue \<Rightarrow> error + dispatched list" where
  "onChatSocketMessage parse verbose payload =
     (case payload of
        Str s \<Rightarrow>
          (case parse s of
             None \<Rightarrow> Inr (ignored verbose)
           | Some v \<Rightarrow>
               (case property v (js ''type'') of
                  Some (JStr cmd) \<Rightarrow> Inr (handleServerCommand cmd (property v (js ''data'')))
                | _ \<Rightarrow> Inr (ignored verbose)))
      | _ \<Rightarrow> Inr (ignored verbose))"

text \<open>
  The handlers that a run of the dispatcher invoked.
\<close>

definition invocations :: "error + dispatched list \<Rightarrow> (jsstring \<times> json option) list" where
  "invocations r =
     (case r of
        Inl e \<Rightarrow> []
      | Inr es \<Rightarrow> concat (map (\<lambda>e. case e of Invoked c x \<Rightarrow> [(c, x)] | Debug l \<Rightarrow> []) es))"

text \<open>
  A parser for the examples: it knows the three texts of the tests, an envelope for
  \<open>inject_message\<close>, an object with no \<open>type\<close>, and an envelope with an unknown command.
\<close>

definition inject_envelope :: jsstring where
  \<open>inject_envelope = js ''{"type":"inject_message","data":{"username":"Test"}}''\<close>

definition untyped_envelope :: jsstring where
  \<open>untyped_envelope = js ''{"foo":"bar"}''\<close>

definition unknown_envelope :: jsstring where
  \<open>unknown_envelope = js ''{"type":"unknown_command","data":null}''\<close>

definition test_parse :: "jsstring \<Rightarrow> json option" where
  "test_parse s =
     (if s = inject_envelope then
        Some (JObj [(js ''type'', JStr (js ''inject_message'')),
                    (js ''data'', JObj [(js ''username'', JStr (js ''Test''))])])
      else if s = untyped_envelope then Some (JObj [(js ''foo'', JStr (js ''bar''))])
      else if s = unknown_envelope then
        Some (JObj [(js ''type'', JStr (js ''unknown_command'')), (js ''data'', JNull)])
      else None)"

section \<open>Rumble: subscriptions\<close>

text \<open>
  Modelled from the spec: \<open>Rumble.prepareSubscriptions\<close> of \<open>platforms/rumble.js\<close>, which
  is not under \<open>src/\<close>; only its tests are. The specification has a gift-subscription
  event whose buyer is in the user directory give one record with \<open>gifted\<close> true, the
  buyer's name, and the number of gifts as \<open>count\<close> and as \<open>value\<close>, and a buyer absent from
  the directory give one \<open>undefined\<close> slot and a diagnostic naming the native id. The
  tests add that a subscription notification gives a record with \<open>gifted\<close> false, count 1
  and value 5, and that a chat message gives no slot at all.
\<close>

datatype rumble_kind = GiftPurchase nat | SubscriptionNotice | ChatText

record rumble_event =
  event_id :: jsstring
  event_kind :: rumble_kind
  event_user :: jsstring

record rumble_user =
  user_id :: jsstring
  user_name :: jsstring

record subscription =
  sub_id :: jsstring
  gifted :: bool
  buyer :: jsstring
  sub_count :: nat
  sub_value :: nat

text \<open>\<open>users.find(user => user.id === id)\<close>\<close>

definition find_user :: "rumble_user list \<Rightarrow> jsstring \<Rightarrow> rumble_user option" where
  "find_user users i = find (\<lambda>u. user_id u = i) users"

text \<open>
  One event: the diagnostics and the slots it contributes; \<open>None\<close> is an \<open>undefined\<close>
  slot.
\<close>

definition prepare_subscription ::
  "rumble_user list \<Rightarrow> rumble_event \<Rightarrow> diagnostic list \<times> subscription option list" where
  "prepare_subscription users e =
     (case event_kind e of
        ChatText \<Rightarrow> ([], [])
      | k \<Rightarrow>
          (case find_user users (event_user e) of
             None \<Rightarrow> ([Log [js ''User not found:'', event_user e]], [None])
           | Some u \<Rightarrow>
               ([], [Some (case k of
                            GiftPurchase n \<Rightarrow>
                              \<lparr>sub_id = event_id e, gifted = True, buyer = user_name u,
                               sub_count = n, sub_value = n\<rparr>
                          | _ \<Rightarrow>
                              \<lparr>sub_id = event_id e, gifted = False, buyer = user_name u,
                               sub_count = 1, sub_value = 5\<rparr>)])))"

definition prepareSubscriptions ::
  "rumble_event list \<Rightarrow> rumble_user list \<Rightarrow> diagnostic list \<times> subscription option list" where
  "prepareSubscriptions events users =
     (let rs = map (prepare_subscription users) events
      in (concat (map fst rs), concat (map snd rs)))"

text \<open>The gift event and its buyer, as the test expects them.\<close>

definition gift_event :: rumble_event where
  "gift_event =
     \<lparr>event_id = js ''2403846329322621779'', event_kind = GiftPurchase 5,
      event_user = js ''88707682''\<rparr>"

definition gift_user :: rumble_user where
  "gift_user = \<lparr>user_id = js ''88707682'', user_name = js ''GenerousGifter''\<rparr>"

section \<open>Verified properties\<close>

subsection \<open>The tokenizer on the scenario's line\<close>

lemmas tokenizer_defs = parse_line_def parse_prefix_def parse_command_def new_result_def
  parseIrcTags_def parsePair_def set_tag_def unescape_def js_split_def js_slice_def
  js_sliceFrom_def Let_def

lemma privmsg_parsed:
  "command (parse_line privmsg_line) = Some (js ''PRIVMSG'')"
  "params (parse_line privmsg_line) = [js ''#streamerchannel'']"
  "trailing (parse_line privmsg_line) = Some (js ''Hello chat!'')"
  "prefix (parse_line privmsg_line) = Some (js ''testuser!testuser@testuser.tmi.twitch.tv'')"
  by (simp_all add: privmsg_line_def tokenizer_defs js_def)

lemma privmsg_tags:
  "tags (parse_line privmsg_line) (js ''id'') = Some (js ''abc123'')"
  "tags (parse_line privmsg_line) (js ''display-name'') = Some (js ''TestUser'')"
  "tags (parse_line privmsg_line) (js ''badges'') = Some (js ''moderator/1,subscriber/24'')"
  "tags (parse_line privmsg_line) (js ''mod'') = Some (js ''1'')"
  "tags (parse_line privmsg_line) (js ''subscriber'') = Some (js ''1'')"
  "tags (parse_line privmsg_line) (js ''tmi-sent-ts'') = None"
  "tags (parse_line privmsg_line) (js ''emotes'') = None"
  "tags (parse_line privmsg_line) (js ''user-id'') = None"
  "tags (parse_line privmsg_line) (js ''color'') = None"
  by (simp_all add: privmsg_line_def tokenizer_defs js_def)

lemma js_startsWith_iff: "js_startsWith s p \<longleftrightarrow> (\<exists>r. s = p @ r)"
  by (induction s p rule: js_startsWith.induct) auto

lemma entry_token_iff:
  assumes "token_version_entry e"
  shows "js_startsWith e (k @ js ''/'') \<longleftrightarrow> entry_token e = Some k"
proof
  assume "js_startsWith e (k @ js ''/'')"
  then obtain r where e: "e = k @ ch CHR ''/'' # r"
    by (auto simp: js_startsWith_iff js_def)
  with assms have "ch CHR ''/'' \<notin> set k"
    by (auto simp: token_version_entry_def filter_empty_conv)
  then have "takeWhile (\<lambda>c. c \<noteq> ch CHR ''/'') e = k"
    unfolding e by (auto simp: takeWhile_tail)
  then show "entry_token e = Some k"
    by (simp add: entry_token_def e)
next
  assume a: "entry_token e = Some k"
  then have m: "ch CHR ''/'' \<in> set e" and k: "takeWhile (\<lambda>c. c \<noteq> ch CHR ''/'') e = k"
    by (auto simp: entry_token_def split: if_splits)
  from m have "dropWhile (\<lambda>c. c \<noteq> ch CHR ''/'') e \<noteq> []"
    by auto
  then obtain d ds where d: "dropWhile (\<lambda>c. c \<noteq> ch CHR ''/'') e = d # ds"
    by (cases "dropWhile (\<lambda>c. c \<noteq> ch CHR ''/'') e") auto
  then have "d = ch CHR ''/''"
    using hd_dropWhile [of "\<lambda>c. c \<noteq> ch CHR ''/''" e] by auto
  with d k have "e = k @ ch CHR ''/'' # ds"
    using takeWhile_dropWhile_id [of "\<lambda>c. c \<noteq> ch CHR ''/''" e] by simp
  then show "js_startsWith e (k @ js ''/'')"
    by (auto simp: js_startsWith_iff js_def)
qed

text \<open>
  C6: over a comma-separated list of \<open>token/version\<close> entries, \<open>hasBadge\<close> is true
  exactly when some entry's token part before the slash equals the queried token; a null
  or empty list gives false for every token; \<open>hasBadge("moderator/1,subscriber/24",
  "moderator")\<close> is true and \<open>hasBadge("subscriber/12", "moderator")\<close> is false.
\<close>

theorem hasBadge_exact_token:
  assumes "list_all token_version_entry (js_split (ch CHR '','') s)"
  shows "hasBadge (Str s) k = hasBadge_spec (Str s) k
    \<and> \<not> hasBadge Null k \<and> \<not> hasBadge (Str []) k
    \<and> hasBadge (Str (js ''moderator/1,subscriber/24'')) (js ''moderator'')
    \<and> \<not> hasBadge (Str (js ''subscriber/12'')) (js ''moderator'')"
proof -
  have eq: "list_ex (\<lambda>b. js_startsWith b (k @ js ''/'')) (js_split (ch CHR '','') s)
      = list_ex (\<lambda>e. entry_token e = Some k) (js_split (ch CHR '','') s)"
    using assms by (auto simp: list_ex_iff list_all_iff entry_token_iff)
  have "hasBadge (Str s) k = hasBadge_spec (Str s) k"
    unfolding hasBadge_def hasBadge_spec_def jsvalue.case eq by (rule refl)
  moreover have "\<not> hasBadge Null k" "\<not> hasBadge (Str []) k"
    by (simp_all add: hasBadge_def js_split_def)
  moreover have "hasBadge (Str (js ''moderator/1,subscriber/24'')) (js ''moderator'')"
    by (simp add: hasBadge_def js_def js_split_def)
  moreover have "\<not> hasBadge (Str (js ''subscriber/12'')) (js ''moderator'')"
    by (simp add: hasBadge_def js_def js_split_def)
  ultimately show ?thesis by simp
qed

theorem hasBadge_exact_token_witness:
  "list_all token_version_entry (js_split (ch CHR '','') (js ''moderator/1,subscriber/24''))
   \<and> hasBadge (Str (js ''moderator/1,subscriber/24'')) (js ''subscriber'')
   \<and> hasBadge_spec (Str (js ''moderator/1,subscriber/24'')) (js ''subscriber'')
   \<and> \<not> hasBadge_spec (Str (js ''moderator/1,subscriber/24'')) (js ''partner'')"
proof -
  have h: "list_all token_version_entry (js_split (ch CHR '','') (js ''moderator/1,subscriber/24''))"
    by (simp add: token_version_entry_def js_def js_split_def)
  have a: "hasBadge (Str (js ''moderator/1,subscriber/24'')) (js ''subscriber'')"
    by (simp add: hasBadge_def js_def js_split_def)
  have b: "\<not> hasBadge (Str (js ''moderator/1,subscriber/24'')) (js ''partner'')"
    by (simp add: hasBadge_def js_def js_split_def)
  from hasBadge_exact_token [OF h, of "js ''subscriber''"] hasBadge_exact_token [OF h, of "js ''partner''"] h a b
  show ?thesis by simp
qed

text \<open>
  C2: the tag value made of an escaped backslash followed by \<open>s\<close>. The chain of
  replacements runs \<open>/\\s/g\<close> first, which takes the second backslash and the \<open>s\<close>
  for an escaped space, so the tag holds a backslash and a space; the single pass gives a
  backslash and \<open>s\<close>.
\<close>

theorem unescape_escaped_backslash_then_s:
  "parseIrcTags (js ''k='' @ [backslash, backslash, ch CHR ''s'']) (js ''k'')
     = Some [backslash, ch CHR '' '']
   \<and> unescape_pass [backslash, backslash, ch CHR ''s''] = [backslash, ch CHR ''s'']"
  by (simp add: js_split_def parseIrcTags_def parsePair_def set_tag_def js_slice_def js_sliceFrom_def unescape_def js_def)

subsection \<open>Writing a frame back and reading it again\<close>

lemma split_from_piece:
  "sep \<notin> set p \<Longrightarrow> split_from sep cur (p @ sep # rest) = (cur @ p) # split_from sep [] rest"
  by (induction p arbitrary: cur) auto

lemma split_from_last: "sep \<notin> set p \<Longrightarrow> split_from sep cur p = [cur @ p]"
  by (induction p arbitrary: cur) auto

lemma js_split_join_space:
  "xs \<noteq> [] \<Longrightarrow> list_all (\<lambda>p. ch CHR '' '' \<notin> set p) xs
     \<Longrightarrow> js_split (ch CHR '' '') (join_space xs) = xs"
proof (induction xs rule: join_space.induct)
  case 1
  then show ?case by simp
next
  case (2 p)
  then show ?case by (simp add: js_split_def split_from_last)
next
  case (3 p q ps)
  then have "js_split (ch CHR '' '') (join_space (q # ps)) = q # ps" by simp
  moreover from 3 have "ch CHR '' '' \<notin> set p" by simp
  ultimately show ?case
    using split_from_piece [of "ch CHR '' ''" p "[]" "join_space (q # ps)"]
    by (simp add: js_split_def)
qed

lemma js_indexOf_skip:
  "a \<notin> set p \<Longrightarrow> js_indexOf (p @ r) [a, b] = map_option (\<lambda>i. length p + i) (js_indexOf r [a, b])"
proof (induction p)
  case Nil
  then show ?case by (simp add: option.map_ident)
next
  case (Cons x p)
  then show ?case by (auto simp: option.map_comp comp_def)
qed

lemma join_space_head: "q \<noteq> [] \<Longrightarrow> \<exists>t. join_space (q # ps) = hd q # t"
  by (cases ps; cases q) auto

lemma js_indexOf_join_space:
  "xs \<noteq> [] \<Longrightarrow> list_all param_ok xs
     \<Longrightarrow> js_indexOf (join_space xs @ tl') (js '' :'')
         = map_option (\<lambda>i. length (join_space xs) + i) (js_indexOf tl' (js '' :''))"
proof (induction xs rule: join_space.induct)
  case 1
  then show ?case by simp
next
  case (2 p)
  then show ?case using js_indexOf_skip [of "ch CHR '' ''" p tl' "ch CHR '':''"]
    by (simp add: param_ok_def js_def)
next
  case (3 p q ps)
  let ?J = "join_space (q # ps)"
  from 3 have p: "ch CHR '' '' \<notin> set p" and q: "q \<noteq> []" "\<not> js_startsWith q (js '':'')"
    by (simp_all add: param_ok_def)
  from q obtain t where t: "?J = hd q # t" and hq: "hd q \<noteq> ch CHR '':''"
    using join_space_head [of q ps] by (cases q) (auto simp: js_def)
  from 3 have ih: "js_indexOf (?J @ tl') (js '' :'')
         = map_option (\<lambda>i. length ?J + i) (js_indexOf tl' (js '' :''))"
    by simp
  have "js_indexOf (ch CHR '' '' # ?J @ tl') (js '' :'') = map_option Suc (js_indexOf (?J @ tl') (js '' :''))"
    using hq by (simp add: t js_def)
  then have "js_indexOf (p @ ch CHR '' '' # ?J @ tl') (js '' :'')
      = map_option (\<lambda>i. length p + i) (map_option Suc (js_indexOf (?J @ tl') (js '' :'')))"
    using js_indexOf_skip [OF p, of "ch CHR '' '' # ?J @ tl'" "ch CHR '':''"] by (simp add: js_def)
  then show ?case
    by (simp add: ih option.map_comp comp_def add.assoc)
qed

lemma parse_command_fields:
  "raw (parse_command r s) = raw r \<and> tags (parse_command r s) = tags r
   \<and> meta (parse_command r s) = meta r \<and> prefix (parse_command r s) = prefix r"
  by (simp add: parse_command_def split: option.splits list.splits)

lemma parse_prefix_fields:
  "raw (parse_prefix r s) = raw r \<and> tags (parse_prefix r s) = tags r
   \<and> meta (parse_prefix r s) = meta r"
  by (simp add: parse_prefix_def parse_command_fields split: option.splits)

lemma parse_line_raw: "raw (parse_line s) = s"
  by (simp add: parse_line_def Let_def parse_prefix_fields new_result_def split: option.splits)

lemma parse_command_no_trailing:
  assumes "xs \<noteq> []" "list_all param_ok xs"
  shows "parse_command r (join_space xs) = r\<lparr>command := Some (hd xs), params := tl xs\<rparr>"
proof -
  have "js_indexOf (join_space xs) (js '' :'') = None"
    using js_indexOf_join_space [OF assms, of "[]"] by (simp add: js_def)
  moreover have "js_split (ch CHR '' '') (join_space xs) = xs"
    using assms by (intro js_split_join_space) (auto simp: list_all_iff param_ok_def)
  moreover have "filter (\<lambda>p. p \<noteq> []) xs = xs"
    using assms by (auto simp: list_all_iff param_ok_def filter_id_conv)
  ultimately show ?thesis
    using assms(1) by (cases xs) (simp_all add: parse_command_def)
qed

lemma parse_command_trailing:
  assumes "xs \<noteq> []" "list_all param_ok xs"
  shows "parse_command r (join_space xs @ js '' :'' @ t)
           = r\<lparr>trailing := Some t, command := Some (hd xs), params := tl xs\<rparr>"
proof -
  have "js_indexOf (join_space xs @ js '' :'' @ t) (js '' :'') = Some (length (join_space xs))"
    using js_indexOf_join_space [OF assms, of "js '' :'' @ t"] by (simp add: js_def)
  moreover have "js_split (ch CHR '' '') (join_space xs) = xs"
    using assms by (intro js_split_join_space) (auto simp: list_all_iff param_ok_def)
  moreover have "filter (\<lambda>p. p \<noteq> []) xs = xs"
    using assms by (auto simp: list_all_iff param_ok_def filter_id_conv)
  moreover have "js_sliceFrom (join_space xs @ js '' :'' @ t) (length (join_space xs) + 2) = t"
    by (simp add: js_sliceFrom_def js_def)
  moreover have "js_slice (join_space xs @ js '' :'' @ t) 0 (length (join_space xs)) = join_space xs"
    by (simp add: js_slice_def)
  ultimately show ?thesis
    using assms(1) by (cases xs) (simp_all add: parse_command_def)
qed

lemma serialize_head:
  assumes "command f = Some c" "verb_ok c"
  shows "\<not> js_startsWith (serialize f) (js ''@'') \<and> \<not> js_startsWith (serialize f) (js '':'')"
proof -
  from assms(2) have c: "c \<noteq> []" by (simp add: verb_ok_def param_ok_def)
  then obtain t where "join_space (c # params f) = hd c # t"
    using join_space_head by blast
  then have "\<exists>u. serialize f = hd c # u"
    by (simp add: serialize_def assms(1))
  moreover from assms(2) c have "hd c \<noteq> ch CHR ''@''" "hd c \<noteq> ch CHR '':''"
    by (cases c; simp add: verb_ok_def param_ok_def js_def)+
  ultimately show ?thesis by (auto simp: js_def)
qed

lemma well_formed_roundtrip:
  assumes "well_formed f"
  shows "command (parse_line (serialize f)) = command f
       \<and> params (parse_line (serialize f)) = params f
       \<and> trailing (parse_line (serialize f)) = trailing f"
proof -
  from assms obtain c where c: "command f = Some c" "verb_ok c"
    and ps: "list_all param_ok (params f)"
    by (auto simp: well_formed_def split: option.splits)
  let ?r = "(new_result (serialize f))\<lparr>meta := Some (tags (new_result (serialize f)))\<rparr>"
  have pl: "parse_line (serialize f) = parse_command ?r (serialize f)"
    using serialize_head [OF c] by (simp add: parse_line_def parse_prefix_def Let_def)
  have xs: "c # params f \<noteq> []" "list_all param_ok (c # params f)"
    using c ps by (simp_all add: verb_ok_def)
  show ?thesis
  proof (cases "trailing f")
    case None
    then have "serialize f = join_space (c # params f)"
      by (simp add: serialize_def c)
    then show ?thesis
      using parse_command_no_trailing [OF xs, of ?r] pl c None by (simp add: new_result_def)
  next
    case (Some t)
    then have "serialize f = join_space (c # params f) @ js '' :'' @ t"
      by (simp add: serialize_def c)
    then show ?thesis
      using parse_command_trailing [OF xs, of ?r t] pl c Some by (simp add: new_result_def)
  qed
qed

lemma split_from_pieces:
  "sep \<notin> set cur \<Longrightarrow> \<forall>p \<in> set (split_from sep cur s). sep \<notin> set p"
proof (induction s arbitrary: cur)
  case Nil
  then show ?case by simp
next
  case (Cons c s)
  show ?case
  proof (cases "c = sep")
    case True
    with Cons.IH [of "[]"] Cons.prems show ?thesis by simp
  next
    case False
    with Cons.IH [of "cur @ [c]"] Cons.prems show ?thesis by auto
  qed
qed

lemma split_from_no_sep:
  "sep \<notin> set cur \<Longrightarrow> p \<in> set (split_from sep cur s) \<Longrightarrow> sep \<notin> set p"
  using split_from_pieces [of sep cur s] by simp

lemma split_from_hd:
  "split_from sep cur s \<noteq> [] \<and> hd (split_from sep cur s) = cur @ takeWhile (\<lambda>c. c \<noteq> sep) s"
  by (induction s arbitrary: cur) simp_all

lemma split_from_first:
  "\<exists>rest. split_from sep cur s = (cur @ takeWhile (\<lambda>c. c \<noteq> sep) s) # rest"
  using split_from_hd [of sep cur s] by (cases "split_from sep cur s") simp_all

lemma split_from_later_pieces:
  "js_indexOf s [a, b] = None \<Longrightarrow> p \<in> set (tl (split_from a cur s)) \<Longrightarrow> \<not> js_startsWith p [b]"
proof (induction s arbitrary: cur)
  case Nil
  then show ?case by simp
next
  case (Cons c s)
  from Cons.prems(1) have nb: "\<not> (c = a \<and> js_startsWith s [b])" and s: "js_indexOf s [a, b] = None"
    by (auto split: if_splits)
  show ?case
  proof (cases "c = a")
    case False
    with Cons.prems(2) have "p \<in> set (tl (split_from a (cur @ [c]) s))" by simp
    with Cons.IH [OF s] show ?thesis .
  next
    case True
    obtain rest where r: "split_from a [] s = takeWhile (\<lambda>c. c \<noteq> a) s # rest"
      using split_from_first [of a "[]" s] by auto
    from True Cons.prems(2) have "p \<in> set (split_from a [] s)" by simp
    with r consider "p = takeWhile (\<lambda>c. c \<noteq> a) s" | "p \<in> set (tl (split_from a [] s))"
      by auto
    then show ?thesis
    proof cases
      case 1
      from nb True have "\<not> js_startsWith s [b]" by simp
      then show ?thesis unfolding 1 by (cases s) auto
    next
      case 2
      with Cons.IH [OF s] show ?thesis .
    qed
  qed
qed

lemma js_startsWith_take: "js_startsWith (take n s) p \<Longrightarrow> js_startsWith s p"
  by (induction s p arbitrary: n rule: js_startsWith.induct) (auto simp: take_Cons split: nat.splits)

lemma js_indexOf_before:
  "js_indexOf s [a, b] = Some i \<Longrightarrow> js_indexOf (take i s) [a, b] = None"
proof (induction s arbitrary: i)
  case Nil
  then show ?case by simp
next
  case (Cons c s)
  show ?case
  proof (cases "js_startsWith (c # s) [a, b]")
    case True
    with Cons.prems show ?thesis by simp
  next
    case False
    with Cons.prems obtain j where j: "i = Suc j" "js_indexOf s [a, b] = Some j"
      by auto
    from False have "\<not> js_startsWith (take i (c # s)) [a, b]"
      using js_startsWith_take by blast
    with Cons.IH [OF j(2)] j(1) show ?thesis by simp
  qed
qed

lemma in_set_tl: "x \<in> set (tl ys) \<Longrightarrow> x \<in> set ys"
  by (cases ys) auto

lemma tl_filter_subset: "set (tl (filter P xs)) \<subseteq> set (tl xs)"
  by (cases xs) (auto dest: in_set_tl)

lemma command_part_pieces:
  assumes "js_indexOf s (js '' :'') = None"
    and "filter (\<lambda>p. p \<noteq> []) (js_split (ch CHR '' '') s) = c # ps"
  shows "c \<noteq> [] \<and> ch CHR '' '' \<notin> set c \<and> list_all param_ok ps"
proof -
  let ?xs = "js_split (ch CHR '' '') s"
  have mem: "p \<noteq> [] \<and> p \<in> set ?xs" if "p \<in> set (c # ps)" for p
  proof -
    from that have "p \<in> set (filter (\<lambda>p. p \<noteq> []) ?xs)" by (simp only: assms(2))
    then show ?thesis by simp
  qed
  from mem [of c] have c: "c \<noteq> []" "c \<in> set ?xs" by simp_all
  then have c2: "ch CHR '' '' \<notin> set c"
    using split_from_no_sep [of "ch CHR '' ''" "[]" c s] by (simp add: js_split_def)
  have "list_all param_ok ps"
    unfolding list_all_iff
  proof
    fix p assume "p \<in> set ps"
    then have "p \<in> set (tl (filter (\<lambda>p. p \<noteq> []) ?xs))" by (simp only: assms(2) list.sel)
    then have p1: "p \<in> set (tl ?xs)" by (rule subsetD [OF tl_filter_subset])
    from \<open>p \<in> set ps\<close> mem [of p] have p2: "p \<noteq> []" "p \<in> set ?xs" by simp_all
    have "ch CHR '' '' \<notin> set p"
      using split_from_no_sep [of "ch CHR '' ''" "[]" p s] p2 by (simp add: js_split_def)
    moreover have "\<not> js_startsWith p (js '':'')"
      using split_from_later_pieces [of s "ch CHR '' ''" "ch CHR '':''" p "[]"] assms(1) p1
      by (simp add: js_split_def js_def)
    ultimately show "param_ok p" using p2 by (simp add: param_ok_def)
  qed
  with c c2 show ?thesis by simp
qed

lemma frame_shape_empty: "command r = None \<Longrightarrow> params r = [] \<Longrightarrow> frame_shape r"
  by (simp add: frame_shape_def)

lemma parse_command_shape:
  assumes "command r = None" "params r = []"
  shows "frame_shape (parse_command r s)"
proof (cases "js_indexOf s (js '' :'')")
  case None
  show ?thesis
  proof (cases "filter (\<lambda>p. p \<noteq> []) (js_split (ch CHR '' '') s)")
    case Nil
    with None assms show ?thesis by (simp add: parse_command_def frame_shape_def)
  next
    case (Cons c ps)
    with command_part_pieces [OF None Cons] None show ?thesis
      by (simp add: parse_command_def frame_shape_def)
  qed
next
  case (Some i)
  then have n: "js_indexOf (js_slice s 0 i) (js '' :'') = None"
    using js_indexOf_before [of s "ch CHR '' ''" "ch CHR '':''" i] by (simp add: js_slice_def js_def)
  show ?thesis
  proof (cases "filter (\<lambda>p. p \<noteq> []) (js_split (ch CHR '' '') (js_slice s 0 i))")
    case Nil
    with Some assms show ?thesis by (simp add: parse_command_def frame_shape_def)
  next
    case (Cons c ps)
    with command_part_pieces [OF n Cons] Some show ?thesis
      by (simp add: parse_command_def frame_shape_def)
  qed
qed

lemma parse_prefix_shape:
  assumes "command r = None" "params r = []"
  shows "frame_shape (parse_prefix r s)"
proof (cases "js_startsWith s (js '':'')")
  case False
  then show ?thesis using parse_command_shape [OF assms] by (simp add: parse_prefix_def)
next
  case True
  show ?thesis
  proof (cases "js_indexOf s (js '' '')")
    case None
    with True show ?thesis using frame_shape_empty [OF assms] by (simp add: parse_prefix_def)
  next
    case (Some i)
    with True show ?thesis
      using parse_command_shape [of "r\<lparr>prefix := Some (js_slice s 1 i)\<rparr>"] assms
      by (simp add: parse_prefix_def)
  qed
qed

lemma parse_line_shape: "frame_shape (parse_line s)"
proof (cases "js_startsWith s (js ''@'')")
  case False
  then show ?thesis
    using parse_prefix_shape [of "(new_result s)\<lparr>meta := Some (tags (new_result s))\<rparr>" s]
    by (simp add: parse_line_def Let_def new_result_def)
next
  case True
  show ?thesis
  proof (cases "js_indexOf s (js '' '')")
    case None
    with True show ?thesis
      using frame_shape_empty [of "new_result s"] by (simp add: parse_line_def new_result_def)
  next
    case (Some i)
    with True show ?thesis
      using parse_prefix_shape [of "(new_result s)\<lparr>tags := parseIrcTags (js_slice s 1 i),
          meta := Some (parseIrcTags (js_slice s 1 i))\<rparr>" "js_sliceFrom s (i + 1)"]
      by (simp add: parse_line_def Let_def new_result_def)
  qed
qed

lemma parsed_well_formed:
  assumes "command (parse_line s) = Some c" "\<not> js_startsWith c (js ''@'')" "\<not> js_startsWith c (js '':'')"
  shows "well_formed (parse_line s)"
  using parse_line_shape [of s] assms
  by (simp add: frame_shape_def well_formed_def verb_ok_def param_ok_def)

text \<open>
  C5: for every well-formed frame (command, parameters and trailing part within the
  grammar \<open>verb params... :trailing\<close>), the line made of the command, the parameters
  joined by spaces and \<open>" :"\<close> with the trailing part when there is one is tokenized
  back to the same command, the same parameters in order and the same trailing part. A
  frame that the tokenizer produced is well formed as soon as its verb does not begin
  with the sentinel of the tag block or of the prefix block.
\<close>

theorem reserialize_roundtrip:
  "(well_formed f \<longrightarrow>
      command (parse_line (serialize f)) = command f
      \<and> params (parse_line (serialize f)) = params f
      \<and> trailing (parse_line (serialize f)) = trailing f)
   \<and> (command (parse_line s) = Some c \<and> \<not> js_startsWith c (js ''@'') \<and> \<not> js_startsWith c (js '':'')
        \<longrightarrow> well_formed (parse_line s))"
  using well_formed_roundtrip [of f] parsed_well_formed [of s c] by blast

theorem reserialize_roundtrip_witness:
  "well_formed (parse_line privmsg_line)
   \<and> serialize (parse_line privmsg_line) = js ''PRIVMSG #streamerchannel :Hello chat!''
   \<and> command (parse_line (js ''PRIVMSG #streamerchannel :Hello chat!'')) = Some (js ''PRIVMSG'')
   \<and> params (parse_line (js ''PRIVMSG #streamerchannel :Hello chat!'')) = [js ''#streamerchannel'']
   \<and> trailing (parse_line (js ''PRIVMSG #streamerchannel :Hello chat!'')) = Some (js ''Hello chat!'')"
proof -
  have v: "\<not> js_startsWith (js ''PRIVMSG'') (js ''@'') \<and> \<not> js_startsWith (js ''PRIVMSG'') (js '':'')"
    by (simp add: js_def)
  have s: "serialize (parse_line privmsg_line) = js ''PRIVMSG #streamerchannel :Hello chat!''"
    by (simp add: serialize_def privmsg_parsed js_def)
  from reserialize_roundtrip [of "parse_line privmsg_line" privmsg_line "js ''PRIVMSG''"]
    privmsg_parsed v
  have "well_formed (parse_line privmsg_line)"
    and "command (parse_line (serialize (parse_line privmsg_line))) = Some (js ''PRIVMSG'')"
    and "params (parse_line (serialize (parse_line privmsg_line))) = [js ''#streamerchannel'']"
    and "trailing (parse_line (serialize (parse_line privmsg_line))) = Some (js ''Hello chat!'')"
    by simp_all
  then show ?thesis by (simp only: s simp_thms)
qed

subsection \<open>The tokenizer returns a frame for every string\<close>

text \<open>
  C4: for every string, \<open>parseIrcMessageToJson\<close> returns a frame and raises nothing. The
  frame keeps the line in \<open>raw\<close>; a tag block with no space after it gives the empty
  frame, a prefix block with no space after it the empty frame with \<open>meta\<close> set, and so
  does the empty line.
\<close>

theorem parseIrcMessageToJson_total:
  "parseIrcMessageToJson (Str s) = Inr (parse_line s)
   \<and> raw (parse_line s) = s
   \<and> (js_startsWith s (js ''@'') \<and> js_indexOf s (js '' '') = None \<longrightarrow> parse_line s = new_result s)
   \<and> (js_startsWith s (js '':'') \<and> js_indexOf s (js '' '') = None
        \<longrightarrow> parse_line s = (new_result s)\<lparr>meta := Some Map.empty\<rparr>)
   \<and> parse_line [] = (new_result [])\<lparr>meta := Some Map.empty\<rparr>"
proof -
  have c1: "parseIrcMessageToJson (Str s) = Inr (parse_line s)"
    by (simp add: parseIrcMessageToJson_def)
  have c3: "parse_line s = new_result s"
    if "js_startsWith s (js ''@'')" "js_indexOf s (js '' '') = None"
    using that by (simp add: parse_line_def)
  have "js_startsWith s (js '':'') \<Longrightarrow> \<not> js_startsWith s (js ''@'')"
    by (cases s) (auto simp: js_def)
  then have c4: "parse_line s = (new_result s)\<lparr>meta := Some Map.empty\<rparr>"
    if "js_startsWith s (js '':'')" "js_indexOf s (js '' '') = None"
    using that by (simp add: parse_line_def parse_prefix_def new_result_def)
  have c5: "parse_line [] = (new_result [])\<lparr>meta := Some Map.empty\<rparr>"
    by (simp add: parse_line_def parse_prefix_def parse_command_def new_result_def js_split_def js_def)
  from c1 parse_line_raw c3 c4 c5 show ?thesis by blast
qed

theorem parseIrcMessageToJson_total_witness:
  "parse_line (js ''@badges=moderator/1;id=abc'') = new_result (js ''@badges=moderator/1;id=abc'')
   \<and> parse_line (js '':tmi.twitch.tv'') = (new_result (js '':tmi.twitch.tv''))\<lparr>meta := Some Map.empty\<rparr>"
proof -
  have a: "js_startsWith (js ''@badges=moderator/1;id=abc'') (js ''@'') \<and> js_indexOf (js ''@badges=moderator/1;id=abc'') (js '' '') = None"
    by (simp add: js_def)
  have b: "js_startsWith (js '':tmi.twitch.tv'') (js '':'') \<and> js_indexOf (js '':tmi.twitch.tv'') (js '' '') = None"
    by (simp add: js_def)
  from parseIrcMessageToJson_total [of "js ''@badges=moderator/1;id=abc''"]
       parseIrcMessageToJson_total [of "js '':tmi.twitch.tv''"] a b
  show ?thesis by blast
qed

subsection \<open>The chat-post scenario\<close>

lemma be_bytes_length: "length (be_bytes k w) = k"
  by (simp add: be_bytes_def)

lemma sha1_length: "length (sha1 m) = 20"
  by (simp add: sha1_def Let_def be_bytes_length split: prod.splits)

lemma hex_of_length: "length (hex_of bs) = 2 * length bs"
  by (induction bs) (simp_all add: hex_of_def)

lemma uuid_format_length: "length bs = 16 \<Longrightarrow> length (uuid_format bs) = 36"
  by (simp add: uuid_format_def hex_of_length js_def)

lemma uuidv5_length: "uuidv5 name namespace = Some u \<Longrightarrow> length u = 36"
  by (auto simp: uuidv5_def Let_def sha1_length uuid_format_length split: option.splits)

lemma twitch_namespace_parsed: "uuid_parse Twitch_namespace \<noteq> None"
  by (simp add: uuid_parse_def Twitch_namespace_def hex_value_def js_def)

lemma privmsg_message:
  "prepareChatMessage twitch_seed now (parse_line privmsg_line) =
     ([], Some ((ChatMessage (js ''abc123'') (js ''Twitch'') (Some (js ''streamerchannel'')))
        \<lparr>message := js ''Hello chat!'', username := Some (js ''TestUser''),
         sent_at := Some (Num (of_nat now)), is_owner := False, is_mod := True, is_sub := True,
         is_verified := False, emojis := [],
         extra := [(''userId'', None), (''color'', Some []),
                   (''badges'', Some (js ''moderator/1,subscriber/24''))]\<rparr>))"
  by (simp only: prepareChatMessage_def Let_def privmsg_tags privmsg_parsed)
    (simp add: twitch_seed_def str_or_def extractUsername_def hasBadge_def js_split_def
      parseEmotes_def js_def)

text \<open>
  C1, as the specification states it, fails on the identifier: \<open>prepareChatMessage\<close>
  passes the native id of the frame to the constructor as it is, and the namespaced hash
  of \<open>abc123\<close> is a different string (36 characters long).
\<close>

theorem privmsg_id_is_not_the_hash:
  "map_option msg_id (snd (prepareChatMessage twitch_seed 0 (parse_line privmsg_line)))
     \<noteq> uuidv5 (js ''abc123'') (seed_namespace twitch_seed)"
proof
  assume "map_option msg_id (snd (prepareChatMessage twitch_seed 0 (parse_line privmsg_line)))
     = uuidv5 (js ''abc123'') (seed_namespace twitch_seed)"
  then have "uuidv5 (js ''abc123'') (seed_namespace twitch_seed) = Some (js ''abc123'')"
    by (simp add: privmsg_message ChatMessage_def)
  then have "length (js ''abc123'') = 36"
    by (rule uuidv5_length)
  then show False by (simp add: js_def)
qed

text \<open>
  C1, amended: tokenizing the chat-post frame with the tags
  \<open>id=abc123;display-name=TestUser;badges=moderator/1,subscriber/24;mod=1;subscriber=1\<close>
  and the trailing part \<open>Hello chat!\<close>, and passing the frame to
  \<open>prepareChatMessage\<close>, gives a message with no warning whose id is the native id
  \<open>abc123\<close> itself, whose username is \<open>TestUser\<close>, whose text is \<open>Hello chat!\<close>, and
  whose flags \<open>is_mod\<close> and \<open>is_sub\<close> are both true.
\<close>

theorem privmsg_scenario:
  "parseIrcMessageToJson (Str privmsg_line) = Inr (parse_line privmsg_line)
   \<and> (\<exists>m. prepareChatMessage twitch_seed now (parse_line privmsg_line) = ([], Some m)
          \<and> msg_id m = js ''abc123'' \<and> username m = Some (js ''TestUser'')
          \<and> message m = js ''Hello chat!'' \<and> is_mod m \<and> is_sub m)"
  by (simp add: parseIrcMessageToJson_def privmsg_message ChatMessage_def)

subsection \<open>The currency pattern: backtracking against one scan\<close>

lemma star_splits_nil: "([], s) \<in> set (star_splits P s)"
  by (cases s) auto

lemma star_splits_sound:
  "(m, r) \<in> set (star_splits P s) \<Longrightarrow> s = m @ r \<and> list_all P m"
  by (induction s arbitrary: m r) (auto split: if_splits)

lemma star_splits_complete: "list_all P m \<Longrightarrow> (m, r) \<in> set (star_splits P (m @ r))"
proof (induction m)
  case Nil
  then show ?case by (simp add: star_splits_nil)
next
  case (Cons c m)
  then have "(m, r) \<in> set (star_splits P (m @ r))" by simp
  with Cons.prems show ?case by force
qed

lemma space_splits_iff:
  "r \<in> set (space_splits s) \<longleftrightarrow> (\<exists>m. s = m @ r \<and> list_all is_space m)"
proof
  assume "r \<in> set (space_splits s)"
  then obtain m where "(m, r) \<in> set (star_splits is_space s)"
    by (auto simp: space_splits_def)
  then show "\<exists>m. s = m @ r \<and> list_all is_space m"
    using star_splits_sound by blast
next
  assume "\<exists>m. s = m @ r \<and> list_all is_space m"
  then obtain m where "s = m @ r" "list_all is_space m" by blast
  then have "(m, r) \<in> set (star_splits is_space s)"
    using star_splits_complete by blast
  then show "r \<in> set (space_splits s)"
    by (force simp: space_splits_def)
qed

lemma digits_splits_iff:
  "(m, r) \<in> set (digits_splits s) \<longleftrightarrow> (s = m @ r \<and> m \<noteq> [] \<and> list_all digit_or_comma m)"
  unfolding digits_splits_def digit_or_comma_def [abs_def]
  using star_splits_sound [of m r _ s] star_splits_complete [of _ m r]
  by auto

lemma fraction_splits_iff:
  "(f, r) \<in> set (fraction_splits s) \<longleftrightarrow> (s = f @ r \<and> is_fraction f)"
  by (induction s rule: fraction_splits.induct)
    (auto simp: is_fraction_def split: list.splits)

lemma amount_splits_iff:
  "(a, r) \<in> set (amount_splits s) \<longleftrightarrow>
     (\<exists>d f. a = d @ f \<and> s = a @ r \<and> d \<noteq> [] \<and> list_all digit_or_comma d \<and> is_fraction f)"
proof
  assume "(a, r) \<in> set (amount_splits s)"
  then obtain d r1 f where "(d, r1) \<in> set (digits_splits s)" "(f, r) \<in> set (fraction_splits r1)"
    "a = d @ f"
    by (auto simp: amount_splits_def)
  then show "\<exists>d f. a = d @ f \<and> s = a @ r \<and> d \<noteq> [] \<and> list_all digit_or_comma d \<and> is_fraction f"
    by (auto simp: digits_splits_iff fraction_splits_iff)
next
  assume "\<exists>d f. a = d @ f \<and> s = a @ r \<and> d \<noteq> [] \<and> list_all digit_or_comma d \<and> is_fraction f"
  then obtain d f where a: "a = d @ f" "s = a @ r" "d \<noteq> []" "list_all digit_or_comma d" "is_fraction f"
    by blast
  then have "(d, f @ r) \<in> set (digits_splits s)" "(f, r) \<in> set (fraction_splits (f @ r))"
    by (simp_all add: digits_splits_iff fraction_splits_iff)
  then show "(a, r) \<in> set (amount_splits s)"
    unfolding amount_splits_def a(1) by force
qed

lemma matches_literal_length: "matches_literal p s \<Longrightarrow> length p \<le> length s"
  by (induction p s rule: matches_literal.induct) auto

lemma symbol_splits_iff:
  "(y, r) \<in> set (symbol_splits s) \<longleftrightarrow>
     (\<exists>p \<in> set symbols. matches_literal p s \<and> y = take (length p) s \<and> r = drop (length p) s)"
  by (auto simp: symbol_splits_def)

lemma symbol_first_iff:
  "(y, a) \<in> set (symbol_first s) \<longleftrightarrow>
     (\<exists>r1 r2 r3. (y, r1) \<in> set (symbol_splits s) \<and> r2 \<in> set (space_splits r1)
        \<and> (a, r3) \<in> set (amount_splits r2) \<and> at_end r3)"
  unfolding symbol_first_def by (simp add: split_def) force

lemma amount_first_iff:
  "(y, a) \<in> set (amount_first s) \<longleftrightarrow>
     (\<exists>r1 r2 r3. (a, r1) \<in> set (amount_splits s) \<and> r2 \<in> set (space_splits r1)
        \<and> (y, r3) \<in> set (symbol_splits r2) \<and> at_end r3)"
  unfolding amount_first_def by (simp add: split_def) force

lemma set_symbols: "set symbols = fst ` set currencyData"
  by (simp add: symbols_def object_keys_def)

lemma is_space_unat:
  "is_space c \<longleftrightarrow> unat c \<in> {9, 10, 11, 12, 13, 32, 160, 5760, 8232, 8233, 8239, 8287, 12288, 65279}
      \<or> (8192 \<le> unat c \<and> unat c \<le> 8202)"
  by (simp add: is_space_def word_le_nat_alt word_unat_eq_iff)

lemma is_digit_unat: "is_digit c \<longleftrightarrow> 48 \<le> unat c \<and> unat c \<le> 57"
  by (simp add: is_digit_def word_le_nat_alt)

lemma digit_or_comma_unat: "digit_or_comma c \<longleftrightarrow> (48 \<le> unat c \<and> unat c \<le> 57) \<or> unat c = 44"
  by (simp add: digit_or_comma_def is_digit_unat word_unat_eq_iff)

lemma class_facts:
  "digit_or_comma c \<Longrightarrow> \<not> is_space c"
  "\<not> digit_or_comma (ch CHR ''.'')"
  "\<not> is_space (ch CHR ''.'')"
  "fraction_unit c \<Longrightarrow> \<not> is_space c"
  by (auto simp: is_space_unat digit_or_comma_unat fraction_unit_def is_digit_unat)

lemma canonicalize_fixes:
  "is_space c \<or> digit_or_comma c \<or> c = ch CHR ''.'' \<Longrightarrow> canonicalize c = c"
  by (auto simp: is_space_unat digit_or_comma_unat canonicalize_def word_le_nat_alt)

lemma lower_case_units:
  assumes "0x61 \<le> q" "q \<le> (0x7A :: jschar)"
  shows "ok_unit (canonicalize q)" "canonicalize q \<noteq> ch CHR ''.''"
proof -
  from assms have q: "97 \<le> unat q" "unat q \<le> 122"
    by (simp_all add: word_le_nat_alt)
  then have "canonicalize q = q - 32"
    by (simp add: canonicalize_def word_le_nat_alt)
  moreover from q have "unat (q - 32) = unat q - 32"
    by (simp add: unat_sub word_le_nat_alt)
  ultimately have "65 \<le> unat (canonicalize q)" "unat (canonicalize q) \<le> 90"
    using q by simp_all
  then show "ok_unit (canonicalize q)" "canonicalize q \<noteq> ch CHR ''.''"
    by (auto simp: ok_unit_def is_space_unat digit_or_comma_unat)
qed

lemma table_units_eval:
  "list_all (\<lambda>p. p \<noteq> []
       \<and> (if 0x61 \<le> hd p \<and> hd p \<le> 0x7A then True else canonicalize (hd p) \<noteq> ch CHR ''.'')
       \<and> list_all (\<lambda>q. if 0x61 \<le> q \<and> q \<le> 0x7A then True else ok_unit (canonicalize q)) p)
     (map fst currencyData)"
  by (simp add: currencyData_def js_def canonicalize_def ok_unit_def is_space_def
      digit_or_comma_def is_digit_def)

lemma table_units:
  assumes "p \<in> set symbols"
  shows "p \<noteq> []" "canonicalize (hd p) \<noteq> ch CHR ''.''" "\<forall>q \<in> set p. ok_unit (canonicalize q)"
proof -
  from assms have p: "p \<in> set (map fst currencyData)" by (simp add: set_symbols)
  with table_units_eval have t: "p \<noteq> []"
    "if 0x61 \<le> hd p \<and> hd p \<le> 0x7A then True else canonicalize (hd p) \<noteq> ch CHR ''.''"
    "list_all (\<lambda>q. if 0x61 \<le> q \<and> q \<le> 0x7A then True else ok_unit (canonicalize q)) p"
    unfolding list_all_iff by blast+
  show "p \<noteq> []" by (rule t(1))
  show "canonicalize (hd p) \<noteq> ch CHR ''.''"
    using t(2) lower_case_units(2) [of "hd p"] by (auto split: if_splits)
  show "\<forall>q \<in> set p. ok_unit (canonicalize q)"
    using t(3) lower_case_units(1) unfolding list_all_iff by (auto split: if_splits)
qed

lemma matches_literal_units:
  "matches_literal p t \<Longrightarrow> length p = length t \<Longrightarrow> \<forall>q \<in> set p. ok_unit (canonicalize q)
     \<Longrightarrow> list_all ok_unit t"
proof (induction p t rule: matches_literal.induct)
  case (3 p ps c s)
  from 3 have k: "canonicalize c = canonicalize p" "ok_unit (canonicalize p)" by simp_all
  have "ok_unit c"
  proof (rule ccontr)
    assume "\<not> ok_unit c"
    then have "canonicalize c = c"
      by (intro canonicalize_fixes) (auto simp: ok_unit_def)
    with k \<open>\<not> ok_unit c\<close> show False by simp
  qed
  with 3 show ?case by simp
qed simp_all

lemma matches_literal_hd:
  "matches_literal p t \<Longrightarrow> p \<noteq> [] \<Longrightarrow> canonicalize (hd p) \<noteq> ch CHR ''.''
     \<Longrightarrow> t \<noteq> [] \<and> hd t \<noteq> ch CHR ''.''"
  using canonicalize_fixes [of "ch CHR ''.''"]
  by (cases p; cases t) auto

lemma symbol_text_facts:
  assumes "is_symbol_text t"
  shows "t \<noteq> []" "hd t \<noteq> ch CHR ''.''" "list_all ok_unit t"
proof -
  from assms obtain p where p: "p \<in> set symbols" "length p = length t" "matches_literal p t"
    by (auto simp: is_symbol_text_def list_ex_iff)
  from matches_literal_hd [OF p(3) table_units(1,2) [OF p(1)]]
  show "t \<noteq> []" "hd t \<noteq> ch CHR ''.''" by simp_all
  from matches_literal_units [OF p(3) p(2) table_units(3) [OF p(1)]]
  show "list_all ok_unit t" .
qed

lemma matches_literal_append:
  "length p = length t \<Longrightarrow> matches_literal p (t @ r) = matches_literal p t"
  by (induction p t rule: matches_literal.induct) auto

lemma matches_literal_take:
  "matches_literal p s \<Longrightarrow> matches_literal p (take (length p) s)"
  by (induction p s rule: matches_literal.induct) auto

lemma symbol_splits_text:
  "(y, r) \<in> set (symbol_splits s) \<longleftrightarrow> (s = y @ r \<and> is_symbol_text y)"
proof
  assume "(y, r) \<in> set (symbol_splits s)"
  then obtain p where p: "p \<in> set symbols" "matches_literal p s" "y = take (length p) s"
    "r = drop (length p) s"
    by (auto simp: symbol_splits_iff)
  from p(2) have "length p \<le> length s" by (rule matches_literal_length)
  with p show "s = y @ r \<and> is_symbol_text y"
    by (auto simp: is_symbol_text_def list_ex_iff intro!: bexI [of _ p] matches_literal_take)
next
  assume a: "s = y @ r \<and> is_symbol_text y"
  then obtain p where p: "p \<in> set symbols" "length p = length y" "matches_literal p y"
    by (auto simp: is_symbol_text_def list_ex_iff)
  with a have "matches_literal p s" by (simp add: matches_literal_append)
  with p a show "(y, r) \<in> set (symbol_splits s)"
    by (auto simp: symbol_splits_iff intro!: bexI [of _ p])
qed

lemma run_unique:
  "list_all P xs \<Longrightarrow> r = [] \<or> \<not> P (hd r)
     \<Longrightarrow> takeWhile P (xs @ r) = xs \<and> dropWhile P (xs @ r) = r"
  by (induction xs) (auto simp: takeWhile_eq_Nil_iff dropWhile_eq_self_iff)

lemma is_fraction_units: "is_fraction f \<Longrightarrow> list_all fraction_unit f \<and> (f \<noteq> [] \<longrightarrow> hd f = ch CHR ''.'')"
  by (auto simp: is_fraction_def fraction_unit_def split: list.splits)

lemma list_all_takeWhile: "list_all P (takeWhile P xs)"
  by (induction xs) auto

lemma not_ok_unit: "is_space c \<or> digit_or_comma c \<Longrightarrow> \<not> ok_unit c"
  by (auto simp: ok_unit_def)

lemma ok_unit_not_fraction: "ok_unit c \<Longrightarrow> c \<noteq> ch CHR ''.'' \<Longrightarrow> \<not> fraction_unit c"
  by (auto simp: ok_unit_def fraction_unit_def digit_or_comma_def)

lemma symbol_first_scan:
  "(y, a) \<in> set (symbol_first s) \<longleftrightarrow> scan_symbol_first s = Some (y, a)"
proof
  assume "(y, a) \<in> set (symbol_first s)"
  then obtain m1 d f r3 where s: "s = y @ m1 @ d @ f @ r3" and a: "a = d @ f"
    and y: "is_symbol_text y" and m1: "list_all is_space m1"
    and d: "d \<noteq> []" "list_all digit_or_comma d" and f: "is_fraction f"
    and r3: "list_all is_space r3"
    by (auto simp: symbol_first_iff symbol_splits_text space_splits_iff amount_splits_iff at_end_def)
  from d have hd_d: "digit_or_comma (hd d)" by (cases d) auto
  have 1: "takeWhile ok_unit s = y \<and> dropWhile ok_unit s = m1 @ d @ f @ r3"
    unfolding s using symbol_text_facts(3) [OF y] m1 d hd_d
    by (intro run_unique) (cases m1; auto simp: not_ok_unit)+
  have 2: "takeWhile is_space (m1 @ d @ f @ r3) = m1 \<and> dropWhile is_space (m1 @ d @ f @ r3) = d @ f @ r3"
    using m1 d hd_d class_facts(1) by (intro run_unique) auto
  have 3: "takeWhile digit_or_comma (d @ f @ r3) = d \<and> dropWhile digit_or_comma (d @ f @ r3) = f @ r3"
    using d(2) is_fraction_units [OF f] r3 class_facts(1,2)
    by (intro run_unique) (cases f; cases r3; auto)+
  have 4: "takeWhile fraction_unit (f @ r3) = f \<and> dropWhile fraction_unit (f @ r3) = r3"
    using is_fraction_units [OF f] r3 class_facts(4)
    by (intro run_unique) (cases r3; auto)+
  show "scan_symbol_first s = Some (y, a)"
    by (simp add: scan_symbol_first_def 1 2 3 4 y d f r3 a)
next
  assume "scan_symbol_first s = Some (y, a)"
  then have y: "y = takeWhile ok_unit s" "is_symbol_text y"
    and a: "a = takeWhile digit_or_comma (dropWhile is_space (dropWhile ok_unit s))
              @ takeWhile fraction_unit (dropWhile digit_or_comma (dropWhile is_space (dropWhile ok_unit s)))"
    and d: "takeWhile digit_or_comma (dropWhile is_space (dropWhile ok_unit s)) \<noteq> []"
    and f: "is_fraction (takeWhile fraction_unit (dropWhile digit_or_comma (dropWhile is_space (dropWhile ok_unit s))))"
    and r3: "list_all is_space (dropWhile fraction_unit (dropWhile digit_or_comma (dropWhile is_space (dropWhile ok_unit s))))"
    by (auto simp: scan_symbol_first_def Let_def split: if_splits)
  let ?r1 = "dropWhile ok_unit s"
  let ?r2 = "dropWhile is_space ?r1"
  let ?r3 = "dropWhile fraction_unit (dropWhile digit_or_comma ?r2)"
  have "(y, ?r1) \<in> set (symbol_splits s)"
    using y by (simp add: symbol_splits_text)
  moreover have "?r2 \<in> set (space_splits ?r1)"
    unfolding space_splits_iff
    by (rule exI [of _ "takeWhile is_space ?r1"]) (simp add: list_all_takeWhile)
  moreover have "(a, ?r3) \<in> set (amount_splits ?r2)"
    unfolding amount_splits_iff
    apply (rule exI [of _ "takeWhile digit_or_comma ?r2"])
    apply (rule exI [of _ "takeWhile fraction_unit (dropWhile digit_or_comma ?r2)"])
    using d f by (simp add: a list_all_takeWhile)
  ultimately show "(y, a) \<in> set (symbol_first s)"
    unfolding symbol_first_iff using r3 by (auto simp: at_end_def)
qed

lemma amount_first_scan:
  "(y, a) \<in> set (amount_first s) \<longleftrightarrow> scan_amount_first s = Some (y, a)"
proof
  assume "(y, a) \<in> set (amount_first s)"
  then obtain m1 d f r3 where s: "s = d @ f @ m1 @ y @ r3" and a: "a = d @ f"
    and y: "is_symbol_text y" and m1: "list_all is_space m1"
    and d: "d \<noteq> []" "list_all digit_or_comma d" and f: "is_fraction f"
    and r3: "list_all is_space r3"
    by (auto simp: amount_first_iff symbol_splits_text space_splits_iff amount_splits_iff at_end_def)
  note yf = symbol_text_facts [OF y]
  from yf have hd_y: "ok_unit (hd y)" by (cases y) auto
  then have hd_y': "\<not> is_space (hd y)" "\<not> digit_or_comma (hd y)" by (simp_all add: ok_unit_def)
  have 1: "takeWhile digit_or_comma s = d \<and> dropWhile digit_or_comma s = f @ m1 @ y @ r3"
    unfolding s using d(2) is_fraction_units [OF f] m1 yf(1) hd_y' class_facts(1,2)
    by (intro run_unique) (cases f; cases m1; cases y; auto)+
  have 2: "takeWhile fraction_unit (f @ m1 @ y @ r3) = f \<and> dropWhile fraction_unit (f @ m1 @ y @ r3) = m1 @ y @ r3"
    using is_fraction_units [OF f] m1 yf(1,2) hd_y class_facts(4) ok_unit_not_fraction
    by (intro run_unique) (cases m1; cases y; auto)+
  have 3: "takeWhile is_space (m1 @ y @ r3) = m1 \<and> dropWhile is_space (m1 @ y @ r3) = y @ r3"
    using m1 yf(1) hd_y' by (intro run_unique) (cases y; auto)+
  have 4: "takeWhile ok_unit (y @ r3) = y \<and> dropWhile ok_unit (y @ r3) = r3"
    using yf(3) r3 by (intro run_unique) (cases r3; auto simp: not_ok_unit)+
  show "scan_amount_first s = Some (y, a)"
    by (simp add: scan_amount_first_def 1 2 3 4 y d f r3 a)
next
  let ?r1 = "dropWhile fraction_unit (dropWhile digit_or_comma s)"
  let ?r2 = "dropWhile is_space ?r1"
  assume "scan_amount_first s = Some (y, a)"
  then have y: "y = takeWhile ok_unit ?r2" "is_symbol_text y"
    and a: "a = takeWhile digit_or_comma s @ takeWhile fraction_unit (dropWhile digit_or_comma s)"
    and d: "takeWhile digit_or_comma s \<noteq> []"
    and f: "is_fraction (takeWhile fraction_unit (dropWhile digit_or_comma s))"
    and r3: "list_all is_space (dropWhile ok_unit ?r2)"
    by (auto simp: scan_amount_first_def Let_def split: if_splits)
  have "(a, ?r1) \<in> set (amount_splits s)"
    unfolding amount_splits_iff
    apply (rule exI [of _ "takeWhile digit_or_comma s"])
    apply (rule exI [of _ "takeWhile fraction_unit (dropWhile digit_or_comma s)"])
    using d f by (simp add: a list_all_takeWhile)
  moreover have "?r2 \<in> set (space_splits ?r1)"
    unfolding space_splits_iff
    by (rule exI [of _ "takeWhile is_space ?r1"]) (simp add: list_all_takeWhile)
  moreover have "(y, dropWhile ok_unit ?r2) \<in> set (symbol_splits ?r2)"
    using y by (simp add: symbol_splits_text)
  ultimately show "(y, a) \<in> set (amount_first s)"
    unfolding amount_first_iff using r3 by (auto simp: at_end_def)
qed

lemma scan_symbol_first_hd:
  assumes "scan_symbol_first s = Some m"
  shows "s \<noteq> [] \<and> ok_unit (hd s)"
proof -
  from assms have "is_symbol_text (takeWhile ok_unit s)"
    by (auto simp: scan_symbol_first_def Let_def split: if_splits)
  then have "takeWhile ok_unit s \<noteq> []" by (rule symbol_text_facts(1))
  then show ?thesis by (cases s) (auto split: if_splits)
qed

lemma scan_amount_first_hd:
  assumes "scan_amount_first s = Some m"
  shows "s \<noteq> [] \<and> digit_or_comma (hd s)"
proof -
  from assms have "takeWhile digit_or_comma s \<noteq> []"
    by (auto simp: scan_amount_first_def Let_def split: if_splits)
  then show ?thesis by (cases s) (auto split: if_splits)
qed

lemma dropWhile_space_start:
  assumes "s = m0 @ r0" "list_all is_space m0" "r0 \<noteq> []" "\<not> is_space (hd r0)"
  shows "dropWhile is_space s = r0"
  using run_unique [of is_space m0 r0] assms by simp

lemma matches_scan:
  "m \<in> set (concat (map (\<lambda>r0. symbol_first r0 @ amount_first r0) (space_splits s)))
     \<longleftrightarrow> scan_payment s = Some m"
proof
  assume "m \<in> set (concat (map (\<lambda>r0. symbol_first r0 @ amount_first r0) (space_splits s)))"
  then obtain r0 m0 where r0: "s = m0 @ r0" "list_all is_space m0"
    and m: "m \<in> set (symbol_first r0) \<or> m \<in> set (amount_first r0)"
    by (auto simp: space_splits_iff)
  from m show "scan_payment s = Some m"
  proof
    assume "m \<in> set (symbol_first r0)"
    with symbol_first_scan [of "fst m" "snd m" r0] have sc: "scan_symbol_first r0 = Some m"
      by simp
    from scan_symbol_first_hd [OF sc] have "dropWhile is_space s = r0"
      by (intro dropWhile_space_start [OF r0]) (auto simp: ok_unit_def)
    with sc show ?thesis by (simp add: scan_payment_def)
  next
    assume "m \<in> set (amount_first r0)"
    with amount_first_scan [of "fst m" "snd m" r0] have sc: "scan_amount_first r0 = Some m"
      by simp
    note h = scan_amount_first_hd [OF sc]
    then have "dropWhile is_space s = r0"
      using class_facts(1) by (intro dropWhile_space_start [OF r0]) auto
    moreover have "scan_symbol_first r0 = None"
    proof (cases "scan_symbol_first r0")
      case (Some m')
      from scan_symbol_first_hd [OF this] h show ?thesis by (simp add: ok_unit_def)
    qed simp
    ultimately show ?thesis using sc by (simp add: scan_payment_def)
  qed
next
  assume a: "scan_payment s = Some m"
  have r0: "dropWhile is_space s \<in> set (space_splits s)"
    unfolding space_splits_iff
    by (rule exI [of _ "takeWhile is_space s"]) (simp add: list_all_takeWhile)
  from a symbol_first_scan [of "fst m" "snd m" "dropWhile is_space s"]
    amount_first_scan [of "fst m" "snd m" "dropWhile is_space s"]
  have "m \<in> set (symbol_first (dropWhile is_space s)) \<or> m \<in> set (amount_first (dropWhile is_space s))"
    by (auto simp: scan_payment_def split: option.splits)
  with r0 show "m \<in> set (concat (map (\<lambda>r0. symbol_first r0 @ amount_first r0) (space_splits s)))"
    by auto
qed

lemma paymentRegex_match_scan: "paymentRegex_match s = scan_payment s"
proof (cases "concat (map (\<lambda>r0. symbol_first r0 @ amount_first r0) (space_splits s))")
  case Nil
  then have n: "scan_payment s = None"
    using matches_scan [of _ s] by (cases "scan_payment s") auto
  show ?thesis unfolding paymentRegex_match_def Nil n by simp
next
  case (Cons m ms)
  then have "m \<in> set (concat (map (\<lambda>r0. symbol_first r0 @ amount_first r0) (space_splits s)))"
    by simp
  then have n: "scan_payment s = Some m" by (simp only: matches_scan)
  show ?thesis unfolding paymentRegex_match_def Cons n by simp
qed

lemma is_symbol_text_keys:
  "is_symbol_text t =
     list_ex (\<lambda>p. if length p = length t then matches_literal p t else False) (map fst currencyData)"
  unfolding is_symbol_text_def list_ex_iff set_symbols by auto

lemma paymentValue_scan:
  "paymentValue s =
     (case scan_payment s of
        None \<Rightarrow> (None, None)
      | Some (y, a) \<Rightarrow>
          (object_get currencyData (map toLowerCase y),
           Some (parseFloat (filter (\<lambda>c. c \<noteq> ch CHR '','') a))))"
  by (simp add: paymentValue_def paymentRegex_match_scan Let_def split: option.splits)

lemmas scan_defs = paymentValue_scan scan_payment_def scan_symbol_first_def scan_amount_first_def
  is_symbol_text_keys ok_unit_def digit_or_comma_def fraction_unit_def is_fraction_def
  is_space_def is_digit_def canonicalize_def toLowerCase_def parseFloat_def digits_value_def
  object_get_def currencyData_def js_def Let_def

lemma scan_symbol_then_amount:
  assumes "is_symbol_text t" "list_all is_space w0" "list_all is_space w1" "list_all is_space w2"
    "d \<noteq> []" "list_all digit_or_comma d" "is_fraction f"
  shows "scan_payment (w0 @ t @ w1 @ d @ f @ w2) = Some (t, d @ f)"
proof -
  have "(t, w1 @ d @ f @ w2) \<in> set (symbol_splits (t @ w1 @ d @ f @ w2))"
    using assms(1) by (simp add: symbol_splits_text)
  moreover have "d @ f @ w2 \<in> set (space_splits (w1 @ d @ f @ w2))"
    using assms(3) by (auto simp: space_splits_iff)
  moreover have "(d @ f, w2) \<in> set (amount_splits (d @ f @ w2))"
    using assms(5-7) by (auto simp: amount_splits_iff)
  ultimately have "(t, d @ f) \<in> set (symbol_first (t @ w1 @ d @ f @ w2))"
    unfolding symbol_first_iff using assms(4) by (auto simp: at_end_def)
  moreover have "t @ w1 @ d @ f @ w2 \<in> set (space_splits (w0 @ t @ w1 @ d @ f @ w2))"
    using assms(2) by (auto simp: space_splits_iff)
  ultimately have "(t, d @ f) \<in> set (concat (map (\<lambda>r0. symbol_first r0 @ amount_first r0)
      (space_splits (w0 @ t @ w1 @ d @ f @ w2))))"
    by auto
  then show ?thesis by (simp only: matches_scan)
qed

lemma scan_amount_then_symbol:
  assumes "is_symbol_text t" "list_all is_space w0" "list_all is_space w1" "list_all is_space w2"
    "d \<noteq> []" "list_all digit_or_comma d" "is_fraction f"
  shows "scan_payment (w0 @ d @ f @ w1 @ t @ w2) = Some (t, d @ f)"
proof -
  have "(d @ f, w1 @ t @ w2) \<in> set (amount_splits (d @ f @ w1 @ t @ w2))"
    using assms(5-7) by (auto simp: amount_splits_iff)
  moreover have "t @ w2 \<in> set (space_splits (w1 @ t @ w2))"
    using assms(3) by (auto simp: space_splits_iff)
  moreover have "(t, w2) \<in> set (symbol_splits (t @ w2))"
    using assms(1) by (simp add: symbol_splits_text)
  ultimately have "(t, d @ f) \<in> set (amount_first (d @ f @ w1 @ t @ w2))"
    unfolding amount_first_iff using assms(4) by (auto simp: at_end_def)
  moreover have "d @ f @ w1 @ t @ w2 \<in> set (space_splits (w0 @ d @ f @ w1 @ t @ w2))"
    using assms(2) by (auto simp: space_splits_iff)
  ultimately have "(t, d @ f) \<in> set (concat (map (\<lambda>r0. symbol_first r0 @ amount_first r0)
      (space_splits (w0 @ d @ f @ w1 @ t @ w2))))"
    by auto
  then show ?thesis by (simp only: matches_scan)
qed

lemma scan_needs_amount:
  assumes "scan_payment s = Some m"
  shows "list_ex digit_or_comma s"
proof -
  from assms have "m \<in> set (concat (map (\<lambda>r0. symbol_first r0 @ amount_first r0) (space_splits s)))"
    by (simp only: matches_scan)
  then obtain r0 m0 where r0: "s = m0 @ r0"
    and m: "m \<in> set (symbol_first r0) \<or> m \<in> set (amount_first r0)"
    by (auto simp: space_splits_iff)
  obtain y a where ya: "m = (y, a)" by (cases m)
  have "\<exists>u v d. r0 = u @ d @ v \<and> d \<noteq> [] \<and> list_all digit_or_comma d"
  proof (cases "m \<in> set (symbol_first r0)")
    case True
    then obtain r1 r2 r3 where "(y, r1) \<in> set (symbol_splits r0)" "r2 \<in> set (space_splits r1)"
      "(a, r3) \<in> set (amount_splits r2)"
      unfolding ya symbol_first_iff by blast
    then obtain m1 d f where "r0 = y @ r1" "r1 = m1 @ r2" "r2 = (d @ f) @ r3" "d \<noteq> []"
      "list_all digit_or_comma d"
      unfolding symbol_splits_text space_splits_iff amount_splits_iff by blast
    then have "r0 = (y @ m1) @ d @ (f @ r3) \<and> d \<noteq> [] \<and> list_all digit_or_comma d"
      by simp
    then show ?thesis by blast
  next
    case False
    with m have "m \<in> set (amount_first r0)" by simp
    then obtain r1 where "(a, r1) \<in> set (amount_splits r0)"
      unfolding ya amount_first_iff by blast
    then obtain d f where "r0 = (d @ f) @ r1" "d \<noteq> []" "list_all digit_or_comma d"
      unfolding amount_splits_iff by blast
    then have "r0 = [] @ d @ (f @ r1) \<and> d \<noteq> [] \<and> list_all digit_or_comma d"
      by simp
    then show ?thesis by blast
  qed
  then obtain u v d where "r0 = u @ d @ v" "d \<noteq> []" "list_all digit_or_comma d"
    by blast
  with r0 show ?thesis
    by (cases d) (auto simp: list_ex_iff)
qed

lemma paymentValue_no_amount:
  assumes "\<not> list_ex digit_or_comma s"
  shows "paymentValue s = (None, None)"
proof (cases "scan_payment s")
  case None
  then show ?thesis by (simp add: paymentValue_scan)
next
  case (Some m)
  from scan_needs_amount [OF this] assms show ?thesis by simp
qed

lemma paymentValue_both_orders:
  assumes "is_symbol_text t" "list_all is_space w0" "list_all is_space w1" "list_all is_space w2"
    "d \<noteq> []" "list_all digit_or_comma d" "is_fraction f"
  shows "paymentValue (w0 @ t @ w1 @ d @ f @ w2)
           = (object_get currencyData (map toLowerCase t),
              Some (parseFloat (filter (\<lambda>c. c \<noteq> ch CHR '','') (d @ f))))"
    and "paymentValue (w0 @ d @ f @ w1 @ t @ w2)
           = (object_get currencyData (map toLowerCase t),
              Some (parseFloat (filter (\<lambda>c. c \<noteq> ch CHR '','') (d @ f))))"
  using scan_symbol_then_amount [OF assms] scan_amount_then_symbol [OF assms]
  by (simp_all only: paymentValue_scan option.case prod.case)

lemma payment_examples:
  "paymentValue (js ''$5.00'') = (Some (js ''USD''), Some (Num 5))"
  "paymentValue ([0x20AC] @ js ''10.00'') = (Some (js ''EUR''), Some (Num 10))"
  "paymentValue (js ''US$5.00'') = (Some (js ''USD''), Some (Num 5))"
  "paymentValue (js ''A$10.00'') = (Some (js ''AUD''), Some (Num 10))"
  "paymentValue (js ''R$25.00'') = (Some (js ''BRL''), Some (Num 25))"
  "paymentValue (js ''$5.123'') = (None, None)"
  by (simp_all add: scan_defs)

lemma unmapped_symbol:
  "is_symbol_text [0x043B, 0x1C80]"
  "object_get currencyData (map toLowerCase [0x043B, 0x1C80]) = None"
  "paymentValue ([0x043B, 0x1C80] @ js ''5'') = (None, Some (Num 5))"
  by (simp_all add: scan_defs)

text \<open>
  C3, amended: \<open>paymentValue\<close> recognizes the symbol before the amount and the
  amount before the symbol, with white space around and between them, digits with
  commas and at most two decimals; the symbol is taken in full, so that \<open>US$\<close>, \<open>A$\<close>
  and \<open>R$\<close> are not read as \<open>$\<close> or \<open>r\<close>; \<open>paymentValue("$5.00")\<close> is
  \<open>("USD", 5)\<close> and \<open>paymentValue("\<euro>10.00")\<close> is \<open>("EUR", 10)\<close>; a text that the
  pattern does not match, such as one with three decimals or with no digit, gives the
  pair \<open>(null, null)\<close>; a matched symbol with no currency code gives a \<open>null\<close> code
  together with the amount read; and a pair is returned for every string, with an
  amount whenever there is a code.
\<close>

theorem paymentValue_recognizes:
  "(is_symbol_text t \<and> list_all is_space w0 \<and> list_all is_space w1 \<and> list_all is_space w2
      \<and> d \<noteq> [] \<and> list_all digit_or_comma d \<and> is_fraction f \<longrightarrow>
        paymentValue (w0 @ t @ w1 @ d @ f @ w2)
          = (object_get currencyData (map toLowerCase t),
             Some (parseFloat (filter (\<lambda>c. c \<noteq> ch CHR '','') (d @ f))))
        \<and> paymentValue (w0 @ d @ f @ w1 @ t @ w2)
          = (object_get currencyData (map toLowerCase t),
             Some (parseFloat (filter (\<lambda>c. c \<noteq> ch CHR '','') (d @ f)))))
   \<and> paymentValue (js ''$5.00'') = (Some (js ''USD''), Some (Num 5))
   \<and> paymentValue ([0x20AC] @ js ''10.00'') = (Some (js ''EUR''), Some (Num 10))
   \<and> paymentValue (js ''US$5.00'') = (Some (js ''USD''), Some (Num 5))
   \<and> paymentValue (js ''A$10.00'') = (Some (js ''AUD''), Some (Num 10))
   \<and> paymentValue (js ''R$25.00'') = (Some (js ''BRL''), Some (Num 25))
   \<and> paymentValue (js ''$5.123'') = (None, None)
   \<and> (paymentRegex_match s = None \<longrightarrow> paymentValue s = (None, None))
   \<and> (\<not> list_ex digit_or_comma s \<longrightarrow> paymentValue s = (None, None))
   \<and> (\<exists>c a. paymentValue s = (c, a) \<and> (c \<noteq> None \<longrightarrow> a \<noteq> None))"
proof -
  have "\<exists>c a. paymentValue s = (c, a) \<and> (c \<noteq> None \<longrightarrow> a \<noteq> None)"
    by (cases "paymentRegex_match s") (auto simp: paymentValue_def Let_def)
  moreover have "paymentRegex_match s = None \<longrightarrow> paymentValue s = (None, None)"
    by (simp add: paymentValue_def)
  ultimately show ?thesis
    using paymentValue_both_orders [of t w0 w1 w2 d f] payment_examples paymentValue_no_amount [of s]
    by (simp only: simp_thms) blast
qed

theorem paymentValue_recognizes_witness:
  "is_symbol_text (js ''Hk$'') \<and> list_all is_space (js '' '') \<and> js ''1,000'' \<noteq> []
   \<and> list_all digit_or_comma (js ''1,000'') \<and> is_fraction (js ''.50'')
   \<and> paymentValue (js '' Hk$ 1,000.50 '') = (Some (js ''HKD''), Some (Num (2001 / 2)))
   \<and> paymentValue (js '' 1,000.50 Hk$ '') = (Some (js ''HKD''), Some (Num (2001 / 2)))
   \<and> paymentRegex_match (js ''hello world'') = None
   \<and> \<not> list_ex digit_or_comma (js ''hello world'')
   \<and> paymentValue (js ''hello world'') = (None, None)"
proof -
  have h: "is_symbol_text (js ''Hk$'')" "list_all is_space (js '' '')" "js ''1,000'' \<noteq> []"
    "list_all digit_or_comma (js ''1,000'')" "is_fraction (js ''.50'')"
    by (simp_all add: scan_defs)
  have n: "\<not> list_ex digit_or_comma (js ''hello world'')"
    by (simp add: digit_or_comma_def is_digit_def js_def)
  have v: "object_get currencyData (map toLowerCase (js ''Hk$'')) = Some (js ''HKD'')"
    "parseFloat (filter (\<lambda>c. c \<noteq> ch CHR '','') (js ''1,000'' @ js ''.50'')) = Num (2001 / 2)"
    by (simp_all add: scan_defs)
  have e: "js '' Hk$ 1,000.50 '' = js '' '' @ js ''Hk$'' @ js '' '' @ js ''1,000'' @ js ''.50'' @ js '' ''"
    "js '' 1,000.50 Hk$ '' = js '' '' @ js ''1,000'' @ js ''.50'' @ js '' '' @ js ''Hk$'' @ js '' ''"
    by (simp_all add: js_def)
  note t = paymentValue_recognizes [of "js ''Hk$''" "js '' ''" "js '' ''" "js '' ''" "js ''1,000''"
      "js ''.50''" "js ''hello world''"]
  from t n have p: "paymentValue (js ''hello world'') = (None, None)" by blast
  then have "paymentRegex_match (js ''hello world'') = None"
    by (cases "paymentRegex_match (js ''hello world'')") (auto simp: paymentValue_def Let_def)
  moreover from t h have "paymentValue (js '' '' @ js ''Hk$'' @ js '' '' @ js ''1,000'' @ js ''.50'' @ js '' '')
       = (Some (js ''HKD''), Some (Num (2001 / 2)))"
    "paymentValue (js '' '' @ js ''1,000'' @ js ''.50'' @ js '' '' @ js ''Hk$'' @ js '' '')
       = (Some (js ''HKD''), Some (Num (2001 / 2)))"
    unfolding v by blast+
  ultimately show ?thesis using h n p unfolding e by blast
qed

text \<open>
  C3, as the specification states it, fails where the symbol matched has no currency
  code: U+1C80 matches the Cyrillic letter U+0432 of the table when case is ignored, the
  text matched is not a key of the table in lower case, and \<open>paymentValue\<close> returns
  \<open>null\<close> with the amount \<open>5\<close>, not the pair \<open>(null, null)\<close>.
\<close>

theorem unmapped_symbol_keeps_amount:
  "is_symbol_text [0x043B, 0x1C80]
   \<and> object_get currencyData (map toLowerCase [0x043B, 0x1C80]) = None
   \<and> paymentValue ([0x043B, 0x1C80] @ js ''5'') = (None, Some (Num 5))
   \<and> paymentValue ([0x043B, 0x1C80] @ js ''5'') \<noteq> (None, None)"
  using unmapped_symbol by simp

subsection \<open>The monetary fields of the messages\<close>

lemma add_run_money:
  "add_run (d, m) r = (d', m') \<Longrightarrow> amount m' = amount m \<and> currency m' = currency m"
  by (auto simp: add_run_def split: option.splits)

lemma foldl_add_run_money:
  "foldl add_run (d, m) rs = (d', m') \<Longrightarrow> amount m' = amount m \<and> currency m' = currency m"
proof (induction rs arbitrary: d m)
  case Nil
  then show ?case by simp
next
  case (Cons r rs)
  obtain d1 m1 where s: "add_run (d, m) r = (d1, m1)" by (cases "add_run (d, m) r")
  with Cons.prems have "foldl add_run (d1, m1) rs = (d', m')" by simp
  from Cons.IH [OF this] add_run_money [OF s] show ?case by simp
qed

lemma set_payment_money:
  "set_payment r m = (d, Inr m') \<Longrightarrow> money_consistent m \<Longrightarrow> money_consistent m'"
  by (auto simp: set_payment_def money_consistent_def split: option.splits prod.splits)

lemma ChatMessage_money: "money_consistent (ChatMessage i p c)"
  by (simp add: money_consistent_def ChatMessage_def)

lemma prepare_text_or_paid_split:
  assumes "prepare_text_or_paid this it r = (d, Inr (Some m))"
  obtains m0 d0 m1 where "amount m0 = None" "currency m0 = None"
    "(if liveChatPaidMessageRenderer it \<noteq> None then set_payment r m0 else ([], Inr m0)) = (d0, Inr m1)"
    "amount m = amount m1" "currency m = currency m1"
proof -
  from assms obtain name ph ts uid where
    a: "authorName r = Some name" "authorPhoto r = Some ph" "thumbnails ph = Some ts"
       "make_id this (renderer_id r) = Inr uid"
    by (auto simp: prepare_text_or_paid_def split: option.splits if_splits sum.splits)
  define m0 where "m0 = (ChatMessage uid (seed_platform this) (seed_channel this))
                             \<lparr>username := simpleText name,
                              avatar := url (last ts),
                              sent_at := Some (sent_at_of (timestampUsec r)),
                              is_verified := hasBadge_icon (authorBadges r) (js ''VERIFIED''),
                              is_sub := isMember (authorBadges r),
                              is_mod := hasBadge_icon (authorBadges r) (js ''MODERATOR''),
                              is_owner := hasBadge_icon (authorBadges r) (js ''OWNER'')\<rparr>"
  have m0: "amount m0 = None" "currency m0 = None"
    by (simp_all add: m0_def ChatMessage_def)
  let ?paid = "(if liveChatPaidMessageRenderer it \<noteq> None then set_payment r m0 else ([], Inr m0))"
  from assms a have b: "(case ?paid of
                            (d, Inl e) \<Rightarrow> (d, Inl e)
                          | (d, Inr m') \<Rightarrow>
                              (case renderer_message r of
                                 None \<Rightarrow> (d, Inr (Some m'))
                               | Some body \<Rightarrow>
                                   (case runs body of
                                      None \<Rightarrow> (d, Inr (Some m'))
                                    | Some rs \<Rightarrow>
                                        (case foldl add_run (d, m') rs of
                                           (d', m'') \<Rightarrow> (d', Inr (Some m''))))))
                       = (d, Inr (Some m))"
    by (simp add: prepare_text_or_paid_def m0_def Let_def split: if_splits)
  then obtain d0 m1 where p: "?paid = (d0, Inr m1)"
    by (cases ?paid; cases "snd ?paid") (auto split: sum.splits)
  from b p have "amount m = amount m1 \<and> currency m = currency m1"
    by (auto split: option.splits prod.splits dest: foldl_add_run_money)
  with m0 p that show thesis by blast
qed

lemma prepare_text_or_paid_money:
  assumes "prepare_text_or_paid this it r = (d, Inr (Some m))"
  shows "money_consistent m"
proof -
  from assms obtain m0 d0 m1 where m0: "amount m0 = None" "currency m0 = None"
    and p: "(if liveChatPaidMessageRenderer it \<noteq> None then set_payment r m0 else ([], Inr m0)) = (d0, Inr m1)"
    and m: "amount m = amount m1" "currency m = currency m1"
    by (rule prepare_text_or_paid_split)
  from m0 have "money_consistent m0" by (simp add: money_consistent_def)
  with p have "money_consistent m1"
    by (auto split: if_splits dest: set_payment_money)
  with m show ?thesis by (simp add: money_consistent_def)
qed

lemma prepare_gift_money:
  assumes "prepare_gift this received ev = Inr m"
  shows "currency m = Some (js ''USD'')"
    and "amount m = Some (if received then (case numGiftedMembers ev of None \<Rightarrow> NaN | Some n \<Rightarrow> Num (of_int n * 5))
                          else Num 5)"
  using assms by (auto simp: prepare_gift_def split: sum.splits option.splits)

lemma prepare_placeholder_money: "prepare_placeholder this ph = Inr m \<Longrightarrow> money_consistent m"
  by (auto simp: prepare_placeholder_def money_consistent_def ChatMessage_def split: sum.splits)

lemma prepare_action_money:
  assumes "prepare_action this a = (d, Inr (Some m))"
  shows "money_consistent m"
proof -
  from assms obtain act it where it: "a = Some act" "item act = Some it"
    by (auto simp: prepare_action_def split: option.splits)
  show ?thesis
  proof (cases "liveChatTextMessageRenderer it")
    case (Some r)
    with assms it have "prepare_text_or_paid this it r = (d, Inr (Some m))"
      by (simp add: prepare_action_def)
    then show ?thesis by (rule prepare_text_or_paid_money)
  next
    case None
    note no_text = None
    show ?thesis
    proof (cases "liveChatPaidMessageRenderer it")
      case (Some r)
      with assms it no_text have "prepare_text_or_paid this it r = (d, Inr (Some m))"
        by (simp add: prepare_action_def)
      then show ?thesis by (rule prepare_text_or_paid_money)
    next
      case None
      with assms it no_text show ?thesis
        by (auto simp: prepare_action_def money_consistent_def map_sum_def
            split: option.splits sum.splits
            dest: prepare_gift_money prepare_placeholder_money [unfolded money_consistent_def])
    qed
  qed
qed

lemma collect_members:
  "collect rs = Inr ms \<Longrightarrow> m \<in> set ms \<Longrightarrow> Inr (Some m) \<in> set rs"
proof (induction rs arbitrary: ms rule: collect.induct)
  case 1
  then show ?case by simp
next
  case (2 e rs)
  then show ?case by simp
next
  case (3 x rs)
  then show ?case by (auto split: sum.splits option.splits)
qed

lemma prepareChatMessages_money:
  assumes "prepareChatMessages this actions = (d, Inr ms)" "m \<in> set ms"
  shows "money_consistent m"
proof -
  from assms have "Inr (Some m) \<in> set (map snd (map (prepare_action this) actions))"
    by (auto simp: prepareChatMessages_def Let_def dest: collect_members)
  then obtain a where "snd (prepare_action this a) = Inr (Some m)" by auto
  then have "prepare_action this a = (fst (prepare_action this a), Inr (Some m))"
    by (metis prod.collapse)
  then show ?thesis by (rule prepare_action_money)
qed

lemma make_id_parsed:
  "uuid_parse (seed_namespace this) \<noteq> None \<Longrightarrow> \<exists>u. make_id this (Some n) = Inr u"
  by (auto simp: make_id_def uuidv5_def Let_def split: option.splits)

lemma youtube_namespace_parsed: "uuid_parse (seed_namespace youtube_seed) \<noteq> None"
  by (simp add: uuid_parse_def youtube_seed_def YouTube_namespace_def hex_value_def js_def)

lemma paid_action_prepared:
  assumes "make_id this (Some (js ''currency-test'')) = Inr u"
  shows "prepare_action this (Some (paid_action t)) =
     (case paymentValue t of
        (Some c, Some a) \<Rightarrow> ([], Inr (Some (paid_message this u (Some a) (Some c))))
      | _ \<Rightarrow> ([Warn [js ''Could not parse SuperChat currency or amount.'', t]],
               Inr (Some (paid_message this u None None))))"
proof -
  have ne: "js ''currency-test'' \<noteq> []" by (simp add: js_def)
  show ?thesis
    by (simp add: prepare_action_def prepare_text_or_paid_def paid_action_def paid_renderer_def
        paid_message_def set_payment_def add_run_def str_or_def assms ne Let_def sent_at_of_def
        hasBadge_icon_def isMember_def ChatMessage_def
        split: prod.splits option.splits)
qed

lemma set_payment_no_currency:
  assumes "set_payment r m = (d, Inr m')" "purchaseAmountText r = Some h" "simpleText h = Some t"
    "fst (paymentValue t) = None"
  shows "amount m' = amount m \<and> currency m' = currency m"
  using assms by (cases "paymentValue t") (auto simp: set_payment_def)

lemma paid_no_currency:
  assumes "prepare_action this (Some \<lparr>item = Some it\<rparr>) = (d, Inr (Some m))"
    and "liveChatTextMessageRenderer it = None"
    and "liveChatPaidMessageRenderer it = Some r"
    and "purchaseAmountText r = Some h" "simpleText h = Some t"
    and "fst (paymentValue t) = None"
  shows "amount m = None \<and> currency m = None"
proof -
  from assms(1-3) have "prepare_text_or_paid this it r = (d, Inr (Some m))"
    by (simp add: prepare_action_def)
  then obtain m0 d0 m1 where m0: "amount m0 = None" "currency m0 = None"
    and p: "(if liveChatPaidMessageRenderer it \<noteq> None then set_payment r m0 else ([], Inr m0)) = (d0, Inr m1)"
    and m: "amount m = amount m1" "currency m = currency m1"
    by (rule prepare_text_or_paid_split)
  from p assms(3) have "set_payment r m0 = (d0, Inr m1)" by simp
  from set_payment_no_currency [OF this assms(4-6)] m0 m show ?thesis by simp
qed

lemma twitch_no_money:
  "prepareChatMessage this now parsed = (d, Some m) \<Longrightarrow> amount m = None \<and> currency m = None"
  by (auto simp: prepareChatMessage_def Let_def ChatMessage_def split: if_splits)

text \<open>
  C9: every message an adapter produces has a currency whenever it has an amount. The
  messages of \<open>prepareChatMessages\<close> (YouTube) have both or neither; those of
  \<open>prepareChatMessage\<close> (Twitch) have neither; and a paid message whose purchase text
  gives no currency, the null pair included, has neither.
\<close>

theorem amount_implies_currency:
  "(prepareChatMessages this actions = (d, Inr ms) \<and> m \<in> set ms
      \<longrightarrow> (amount m \<noteq> None \<longrightarrow> currency m \<noteq> None))
   \<and> (prepareChatMessage this' now parsed = (d', Some m')
      \<longrightarrow> amount m' = None \<and> currency m' = None)
   \<and> (prepare_action this (Some \<lparr>item = Some it\<rparr>) = (d'', Inr (Some m''))
        \<and> liveChatTextMessageRenderer it = None \<and> liveChatPaidMessageRenderer it = Some r
        \<and> purchaseAmountText r = Some h \<and> simpleText h = Some t
        \<and> fst (paymentValue t) = None
      \<longrightarrow> amount m'' = None \<and> currency m'' = None)"
  using prepareChatMessages_money [of this actions d ms m] twitch_no_money [of this' now parsed d' m']
    paid_no_currency [of this it d'' m'' r h t]
  by (auto simp: money_consistent_def)

theorem amount_implies_currency_witness:
  "(\<exists>d ms m. prepareChatMessages youtube_seed [Some (paid_action (js ''$5.00''))] = (d, Inr ms)
       \<and> m \<in> set ms \<and> amount m \<noteq> None \<and> currency m \<noteq> None)
   \<and> (\<exists>d m. prepareChatMessage twitch_seed 0 (parse_line privmsg_line) = (d, Some m)
       \<and> amount m = None \<and> currency m = None)
   \<and> (\<exists>d m. prepare_action youtube_seed (Some (paid_action (js ''hello world''))) = (d, Inr (Some m))
       \<and> fst (paymentValue (js ''hello world'')) = None \<and> amount m = None \<and> currency m = None)"
proof -
  obtain u where u: "make_id youtube_seed (Some (js ''currency-test'')) = Inr u"
    using make_id_parsed [OF youtube_namespace_parsed] by blast
  let ?m = "paid_message youtube_seed u (Some (Num 5)) (Some (js ''USD''))"
  have a: "prepareChatMessages youtube_seed [Some (paid_action (js ''$5.00''))] = ([], Inr [?m])"
    by (simp add: prepareChatMessages_def paid_action_prepared [OF u] payment_examples(1))
  have am: "amount ?m \<noteq> None" by (simp add: paid_message_def)
  from amount_implies_currency [where this = youtube_seed
      and actions = "[Some (paid_action (js ''$5.00''))]" and d = "[]" and ms = "[?m]" and m = ?m] a am
  have 1: "currency ?m \<noteq> None" by simp
  have b: "prepareChatMessage twitch_seed 0 (parse_line privmsg_line)
      = ([], snd (prepareChatMessage twitch_seed 0 (parse_line privmsg_line)))"
    "snd (prepareChatMessage twitch_seed 0 (parse_line privmsg_line)) \<noteq> None"
    by (simp_all add: privmsg_message)
  then obtain tm where tm: "prepareChatMessage twitch_seed 0 (parse_line privmsg_line) = ([], Some tm)"
    by (cases "snd (prepareChatMessage twitch_seed 0 (parse_line privmsg_line))") auto
  from amount_implies_currency [where this' = twitch_seed and now = 0
      and parsed = "parse_line privmsg_line" and d' = "[]" and m' = tm] tm
  have 2: "amount tm = None \<and> currency tm = None" by blast
  have n: "paymentValue (js ''hello world'') = (None, None)"
    by (rule paymentValue_no_amount) (simp add: digit_or_comma_def is_digit_def js_def)
  let ?w = "[Warn [js ''Could not parse SuperChat currency or amount.'', js ''hello world'']]"
  let ?k = "paid_message youtube_seed u None None"
  have c: "prepare_action youtube_seed (Some (paid_action (js ''hello world''))) = (?w, Inr (Some ?k))"
    by (simp add: paid_action_prepared [OF u] n)
  have c': "prepare_action youtube_seed (Some \<lparr>item = Some \<lparr>liveChatTextMessageRenderer = None,
                    liveChatPaidMessageRenderer = Some (paid_renderer (js ''hello world'')),
                    liveChatMembershipGiftingEventRenderer = None,
                    liveChatGiftMembershipReceivedEventRenderer = None,
                    liveChatPlaceholderItemRenderer = None\<rparr>\<rparr>) = (?w, Inr (Some ?k))"
    using c by (simp add: paid_action_def)
  from amount_implies_currency [where this = youtube_seed
      and it = "\<lparr>liveChatTextMessageRenderer = None,
                    liveChatPaidMessageRenderer = Some (paid_renderer (js ''hello world'')),
                    liveChatMembershipGiftingEventRenderer = None,
                    liveChatGiftMembershipReceivedEventRenderer = None,
                    liveChatPlaceholderItemRenderer = None\<rparr>" and d'' = ?w and m'' = ?k
      and r = "paid_renderer (js ''hello world'')"
      and h = "\<lparr>simpleText = Some (js ''hello world'')\<rparr>" and t = "js ''hello world''"] c' n
  have 3: "amount ?k = None \<and> currency ?k = None"
    by (simp add: paid_renderer_def)
  from a am 1 have "\<exists>d ms m. prepareChatMessages youtube_seed [Some (paid_action (js ''$5.00''))] = (d, Inr ms)
       \<and> m \<in> set ms \<and> amount m \<noteq> None \<and> currency m \<noteq> None"
    by (intro exI [of _ "[]"] exI [of _ "[?m]"] exI [of _ ?m]) simp
  moreover from tm 2 have "\<exists>d m. prepareChatMessage twitch_seed 0 (parse_line privmsg_line) = (d, Some m)
       \<and> amount m = None \<and> currency m = None"
    by blast
  moreover from c n 3 have "\<exists>d m. prepare_action youtube_seed (Some (paid_action (js ''hello world''))) = (d, Inr (Some m))
       \<and> fst (paymentValue (js ''hello world'')) = None \<and> amount m = None \<and> currency m = None"
    by (intro exI [of _ ?w] exI [of _ ?k]) simp
  ultimately show ?thesis by blast
qed

subsection \<open>The membership-gift events\<close>

lemma gift_event_prepared:
  assumes "liveChatTextMessageRenderer it = None" "liveChatPaidMessageRenderer it = None"
    and "liveChatMembershipGiftingEventRenderer it = Some ev
         \<or> (liveChatMembershipGiftingEventRenderer it = None
             \<and> liveChatGiftMembershipReceivedEventRenderer it = Some ev)"
  shows "prepare_action this (Some \<lparr>item = Some it\<rparr>)
           = ([], map_sum id Some (prepare_gift this (liveChatMembershipGiftingEventRenderer it = None) ev))"
  using assms by (auto simp: prepare_action_def)

lemma gift_event_money:
  assumes "liveChatTextMessageRenderer it = None" "liveChatPaidMessageRenderer it = None"
    and "liveChatMembershipGiftingEventRenderer it = Some ev
         \<or> (liveChatMembershipGiftingEventRenderer it = None
             \<and> liveChatGiftMembershipReceivedEventRenderer it = Some ev)"
    and "prepare_action this (Some \<lparr>item = Some it\<rparr>) = (d, Inr (Some m))"
  shows "currency m = Some (js ''USD'')"
    and "amount m = Some (if liveChatMembershipGiftingEventRenderer it = None
                          then (case numGiftedMembers ev of None \<Rightarrow> NaN | Some n \<Rightarrow> Num (of_int n * 5))
                          else Num 5)"
proof -
  from assms(4) gift_event_prepared [OF assms(1-3), of this]
  have "prepare_gift this (liveChatMembershipGiftingEventRenderer it = None) ev = Inr m"
    by (cases "prepare_gift this (liveChatMembershipGiftingEventRenderer it = None) ev") auto
  from prepare_gift_money [OF this]
  show "currency m = Some (js ''USD'')"
    and "amount m = Some (if liveChatMembershipGiftingEventRenderer it = None
                          then (case numGiftedMembers ev of None \<Rightarrow> NaN | Some n \<Rightarrow> Num (of_int n * 5))
                          else Num 5)"
    by simp_all
qed

lemma gift_event_mapped:
  assumes "liveChatTextMessageRenderer it = None" "liveChatPaidMessageRenderer it = None"
    and "liveChatMembershipGiftingEventRenderer it = Some ev
         \<or> (liveChatMembershipGiftingEventRenderer it = None
             \<and> liveChatGiftMembershipReceivedEventRenderer it = Some ev)"
    and "uuid_parse (seed_namespace this) \<noteq> None"
    and "renderer_id ev = Some n" "authorName ev = Some name" "authorPhoto ev = Some ph"
    and "thumbnails ph = Some ts" "ts \<noteq> []"
  shows "\<exists>m. prepare_action this (Some \<lparr>item = Some it\<rparr>) = ([], Inr (Some m))"
proof -
  obtain u where "make_id this (Some n) = Inr u"
    using make_id_parsed [OF assms(4)] by blast
  then have "\<exists>m. prepare_gift this (liveChatMembershipGiftingEventRenderer it = None) ev = Inr m"
    using assms(5-9) by (simp add: prepare_gift_def last_thumbnail_url_def)
  then show ?thesis
    unfolding gift_event_prepared [OF assms(1-3)] by auto
qed

text \<open>
  C10: a membership-gift event that the adapter recognizes (no text or paid renderer
  before it, and the identifier, the author's name and a photo present) is mapped to a
  message, and the message of such an event has monetary fields that are made up, not
  read: the currency \<open>USD\<close> and the amount \<open>5.00\<close> for a gifting event, the currency
  \<open>USD\<close> and \<open>5.00\<close> times \<open>numGiftedMembers\<close> for a gift-received event.
\<close>

theorem gift_events_synthesized_money:
  "(liveChatTextMessageRenderer it = None \<and> liveChatPaidMessageRenderer it = None
      \<and> liveChatMembershipGiftingEventRenderer it = Some ev
      \<and> prepare_action this (Some \<lparr>item = Some it\<rparr>) = (d, Inr (Some m))
    \<longrightarrow> currency m = Some (js ''USD'') \<and> amount m = Some (Num 5))
   \<and> (liveChatTextMessageRenderer it = None \<and> liveChatPaidMessageRenderer it = None
      \<and> liveChatMembershipGiftingEventRenderer it = None
      \<and> liveChatGiftMembershipReceivedEventRenderer it = Some ev
      \<and> numGiftedMembers ev = Some n
      \<and> prepare_action this (Some \<lparr>item = Some it\<rparr>) = (d, Inr (Some m))
    \<longrightarrow> currency m = Some (js ''USD'') \<and> amount m = Some (Num (5 * of_int n)))
   \<and> (liveChatTextMessageRenderer it = None \<and> liveChatPaidMessageRenderer it = None
      \<and> (liveChatMembershipGiftingEventRenderer it = Some ev
          \<or> (liveChatMembershipGiftingEventRenderer it = None
              \<and> liveChatGiftMembershipReceivedEventRenderer it = Some ev))
      \<and> uuid_parse (seed_namespace this) \<noteq> None
      \<and> renderer_id ev = Some native \<and> authorName ev = Some name \<and> authorPhoto ev = Some ph
      \<and> thumbnails ph = Some ts \<and> ts \<noteq> []
    \<longrightarrow> (\<exists>m. prepare_action this (Some \<lparr>item = Some it\<rparr>) = ([], Inr (Some m))))"
proof -
  have 1: "currency m = Some (js ''USD'') \<and> amount m = Some (Num 5)"
    if "liveChatTextMessageRenderer it = None" "liveChatPaidMessageRenderer it = None"
      "liveChatMembershipGiftingEventRenderer it = Some ev"
      "prepare_action this (Some \<lparr>item = Some it\<rparr>) = (d, Inr (Some m))"
    using gift_event_money [of it ev this d m] that by simp
  have 2: "currency m = Some (js ''USD'') \<and> amount m = Some (Num (5 * of_int n))"
    if "liveChatTextMessageRenderer it = None" "liveChatPaidMessageRenderer it = None"
      "liveChatMembershipGiftingEventRenderer it = None"
      "liveChatGiftMembershipReceivedEventRenderer it = Some ev" "numGiftedMembers ev = Some n"
      "prepare_action this (Some \<lparr>item = Some it\<rparr>) = (d, Inr (Some m))"
    using gift_event_money [of it ev this d m] that by (simp add: mult.commute)
  from 1 2 gift_event_mapped [of it ev this native name ph ts] show ?thesis by blast
qed

theorem gift_events_synthesized_money_witness:
  "(\<exists>m. prepare_action youtube_seed (Some \<lparr>item = Some (gift_item False)\<rparr>) = ([], Inr (Some m))
        \<and> currency m = Some (js ''USD'') \<and> amount m = Some (Num 5))
   \<and> (\<exists>m. prepare_action youtube_seed (Some \<lparr>item = Some (gift_item True)\<rparr>) = ([], Inr (Some m))
        \<and> currency m = Some (js ''USD'') \<and> amount m = Some (Num 25))"
proof -
  have g: "liveChatTextMessageRenderer (gift_item b) = None"
    "liveChatPaidMessageRenderer (gift_item b) = None"
    "liveChatMembershipGiftingEventRenderer (gift_item False) = Some gift_renderer"
    "liveChatMembershipGiftingEventRenderer (gift_item True) = None"
    "liveChatGiftMembershipReceivedEventRenderer (gift_item True) = Some gift_renderer"
    "numGiftedMembers gift_renderer = Some 5"
    "renderer_id gift_renderer = Some (js ''gift-1'')"
    "authorName gift_renderer = Some \<lparr>simpleText = Some (js ''@Gifter'')\<rparr>"
    "authorPhoto gift_renderer = Some \<lparr>thumbnails = Some [\<lparr>url = Some (js ''https://example.com/g.jpg'')\<rparr>]\<rparr>"
    for b
    by (simp_all add: gift_item_def gift_renderer_def)
  note p = youtube_namespace_parsed
  from gift_events_synthesized_money [where it = "gift_item False" and ev = gift_renderer
      and this = youtube_seed and native = "js ''gift-1''"
      and name = "\<lparr>simpleText = Some (js ''@Gifter'')\<rparr>"
      and ph = "\<lparr>thumbnails = Some [\<lparr>url = Some (js ''https://example.com/g.jpg'')\<rparr>]\<rparr>"
      and ts = "[\<lparr>url = Some (js ''https://example.com/g.jpg'')\<rparr>]" and d = "[]"
      and m = "ChatMessage [] [] None" and n = 5] g p
  obtain m1 where m1: "prepare_action youtube_seed (Some \<lparr>item = Some (gift_item False)\<rparr>) = ([], Inr (Some m1))"
    by auto
  from gift_events_synthesized_money [where it = "gift_item False" and ev = gift_renderer
      and this = youtube_seed and d = "[]" and m = m1] g m1
  have r1: "currency m1 = Some (js ''USD'') \<and> amount m1 = Some (Num 5)" by simp
  from gift_events_synthesized_money [where it = "gift_item True" and ev = gift_renderer
      and this = youtube_seed and native = "js ''gift-1''"
      and name = "\<lparr>simpleText = Some (js ''@Gifter'')\<rparr>"
      and ph = "\<lparr>thumbnails = Some [\<lparr>url = Some (js ''https://example.com/g.jpg'')\<rparr>]\<rparr>"
      and ts = "[\<lparr>url = Some (js ''https://example.com/g.jpg'')\<rparr>]" and d = "[]"
      and m = "ChatMessage [] [] None" and n = 5] g p
  obtain m2 where m2: "prepare_action youtube_seed (Some \<lparr>item = Some (gift_item True)\<rparr>) = ([], Inr (Some m2))"
    by auto
  from gift_events_synthesized_money [where it = "gift_item True" and ev = gift_renderer
      and this = youtube_seed and d = "[]" and m = m2 and n = 5] g m2
  have r2: "currency m2 = Some (js ''USD'') \<and> amount m2 = Some (Num 25)" by simp
  from m1 r1 m2 r2 show ?thesis by blast
qed

subsection \<open>The command dispatcher\<close>

lemma invocations_ignored: "invocations (Inr (ignored verbose)) = []"
  by (simp add: invocations_def ignored_def)

lemma dispatch_recognized:
  assumes "parse s = Some v" "property v (js ''type'') = Some (JStr cmd)" "cmd \<in> set recognized"
  shows "onChatSocketMessage parse verbose (Str s) = Inr [Invoked cmd (property v (js ''data''))]"
  using assms by (simp add: onChatSocketMessage_def handleServerCommand_def)

lemma dispatch_unrecognized:
  assumes "parse s = Some v" "property v (js ''type'') = Some (JStr cmd)" "cmd \<notin> set recognized"
  shows "onChatSocketMessage parse verbose (Str s) = Inr [Debug [js ''Unknown server command:'', cmd]]"
  using assms by (simp add: onChatSocketMessage_def handleServerCommand_def)

lemma dispatch_no_type:
  assumes "parse s = None \<or> (\<exists>v. parse s = Some v \<and> property v (js ''type'') = None)"
  shows "onChatSocketMessage parse verbose (Str s) = Inr (ignored verbose)"
  using assms by (auto simp: onChatSocketMessage_def)

lemma dispatch_total: "\<exists>es. onChatSocketMessage parse verbose payload = Inr es"
  by (auto simp: onChatSocketMessage_def split: jsvalue.splits option.splits json.splits)

text \<open>
  C7: for every raw payload, a text that parses to an object whose \<open>type\<close> is the string
  of a recognized command, such as \<open>inject_message\<close>, has the handler of that command
  invoked once with the \<open>data\<close> of the envelope as it is, \<open>null\<close> and \<open>undefined\<close>
  included; a text that does not parse, or whose object has no \<open>type\<close>, invokes no
  handler; an unrecognized discriminator is logged and dropped; and the dispatcher
  returns for every payload.
\<close>

theorem dispatcher_routes:
  "(parse s = Some v \<and> property v (js ''type'') = Some (JStr cmd) \<and> cmd \<in> set recognized
      \<longrightarrow> onChatSocketMessage parse verbose (Str s) = Inr [Invoked cmd (property v (js ''data''))])
   \<and> js ''inject_message'' \<in> set recognized
   \<and> handleServerCommand (js ''inject_message'') data = [Invoked (js ''inject_message'') data]
   \<and> (parse s = None \<or> (\<exists>v. parse s = Some v \<and> property v (js ''type'') = None)
      \<longrightarrow> invocations (onChatSocketMessage parse verbose (Str s)) = [])
   \<and> (parse s = Some v \<and> property v (js ''type'') = Some (JStr cmd) \<and> cmd \<notin> set recognized
      \<longrightarrow> onChatSocketMessage parse verbose (Str s)
            = Inr [Debug [js ''Unknown server command:'', cmd]]
          \<and> invocations (onChatSocketMessage parse verbose (Str s)) = [])
   \<and> (\<exists>es. onChatSocketMessage parse verbose payload = Inr es)"
proof -
  have 1: "js ''inject_message'' \<in> set recognized"
    by (simp add: recognized_def)
  then have 2: "handleServerCommand (js ''inject_message'') data = [Invoked (js ''inject_message'') data]"
    by (simp add: handleServerCommand_def)
  have 3: "invocations (onChatSocketMessage parse verbose (Str s)) = []"
    if "parse s = None \<or> (\<exists>v. parse s = Some v \<and> property v (js ''type'') = None)"
    using dispatch_no_type [of parse s verbose] that by (simp add: invocations_ignored)
  have 4: "onChatSocketMessage parse verbose (Str s) = Inr [Debug [js ''Unknown server command:'', cmd]]
          \<and> invocations (onChatSocketMessage parse verbose (Str s)) = []"
    if "parse s = Some v" "property v (js ''type'') = Some (JStr cmd)" "cmd \<notin> set recognized"
    using dispatch_unrecognized [of parse s v cmd verbose] that by (simp add: invocations_def)
  from 1 2 3 4 dispatch_recognized [of parse s v cmd verbose] dispatch_total [of parse verbose payload]
  show ?thesis by blast
qed

lemma test_parse_values:
  "test_parse inject_envelope =
     Some (JObj [(js ''type'', JStr (js ''inject_message'')),
                 (js ''data'', JObj [(js ''username'', JStr (js ''Test''))])])"
  "test_parse untyped_envelope = Some (JObj [(js ''foo'', JStr (js ''bar''))])"
  "test_parse unknown_envelope =
     Some (JObj [(js ''type'', JStr (js ''unknown_command'')), (js ''data'', JNull)])"
  \<open>test_parse (js ''not valid json {'') = None\<close>
  by (simp_all add: test_parse_def inject_envelope_def untyped_envelope_def unknown_envelope_def js_def)

lemma test_properties:
  "property (JObj [(js ''type'', JStr (js ''inject_message'')),
                 (js ''data'', JObj [(js ''username'', JStr (js ''Test''))])]) (js ''type'')
     = Some (JStr (js ''inject_message''))"
  "property (JObj [(js ''type'', JStr (js ''inject_message'')),
                 (js ''data'', JObj [(js ''username'', JStr (js ''Test''))])]) (js ''data'')
     = Some (JObj [(js ''username'', JStr (js ''Test''))])"
  "property (JObj [(js ''foo'', JStr (js ''bar''))]) (js ''type'') = None"
  "property (JObj [(js ''type'', JStr (js ''unknown_command'')), (js ''data'', JNull)]) (js ''type'')
     = Some (JStr (js ''unknown_command''))"
  "js ''unknown_command'' \<notin> set recognized"
  by (simp_all add: property_def object_get_def recognized_def js_def)

theorem dispatcher_routes_witness:
  "onChatSocketMessage test_parse False (Str inject_envelope)
     = Inr [Invoked (js ''inject_message'') (Some (JObj [(js ''username'', JStr (js ''Test''))]))]
   \<and> invocations (onChatSocketMessage test_parse False (Str untyped_envelope)) = []
   \<and> invocations (onChatSocketMessage test_parse False (Str (js ''not valid json {''))) = []
   \<and> onChatSocketMessage test_parse False (Str unknown_envelope)
     = Inr [Debug [js ''Unknown server command:'', js ''unknown_command'']]"
proof -
  note a = dispatcher_routes [where parse = test_parse and verbose = False and s = inject_envelope
      and cmd = "js ''inject_message''"
      and v = "JObj [(js ''type'', JStr (js ''inject_message'')),
                 (js ''data'', JObj [(js ''username'', JStr (js ''Test''))])]"]
  note b = dispatcher_routes [where parse = test_parse and verbose = False and s = untyped_envelope]
  note c = dispatcher_routes [where parse = test_parse and verbose = False
      and s = "js ''not valid json {''"]
  note d = dispatcher_routes [where parse = test_parse and verbose = False and s = unknown_envelope
      and cmd = "js ''unknown_command''"
      and v = "JObj [(js ''type'', JStr (js ''unknown_command'')), (js ''data'', JNull)]"]
  from a test_parse_values(1) test_properties(1)
  have 1: "onChatSocketMessage test_parse False (Str inject_envelope)
     = Inr [Invoked (js ''inject_message'') (Some (JObj [(js ''username'', JStr (js ''Test''))]))]"
    unfolding test_properties(2) by blast
  from b test_parse_values(2) test_properties(3)
  have 2: "invocations (onChatSocketMessage test_parse False (Str untyped_envelope)) = []"
    by blast
  from c test_parse_values(4)
  have 3: "invocations (onChatSocketMessage test_parse False (Str (js ''not valid json {''))) = []"
    by blast
  from d test_parse_values(3) test_properties(4,5)
  have 4: "onChatSocketMessage test_parse False (Str unknown_envelope)
     = Inr [Debug [js ''Unknown server command:'', js ''unknown_command'']]"
    by blast
  from 1 2 3 4 show ?thesis by blast
qed

subsection \<open>Rumble: gift subscriptions\<close>

lemma find_user_found:
  "find_user users i = Some u \<Longrightarrow> user_id u = i \<and> u \<in> set users"
  by (auto simp: find_user_def find_Some_iff)

lemma find_user_absent: "find_user users i = None \<longleftrightarrow> i \<notin> user_id ` set users"
  by (auto simp: find_user_def find_None_iff)

text \<open>
  C8: for one gift-subscription event, a buyer found in the user directory gives exactly
  one record, with \<open>gifted\<close> true, the buyer's name, and the number of gifts as count and
  as value, and no diagnostic; a buyer whose id no user of the directory has gives
  exactly one \<open>undefined\<close> slot and the diagnostic naming that id; nothing is raised.
\<close>

theorem gift_subscription_slots:
  "(event_kind e = GiftPurchase n \<and> find_user users (event_user e) = Some u
      \<longrightarrow> prepareSubscriptions [e] users
            = ([], [Some \<lparr>sub_id = event_id e, gifted = True, buyer = user_name u,
                          sub_count = n, sub_value = n\<rparr>])
          \<and> user_id u = event_user e \<and> u \<in> set users)
   \<and> (event_kind e = GiftPurchase n \<and> event_user e \<notin> user_id ` set users
      \<longrightarrow> prepareSubscriptions [e] users = ([Log [js ''User not found:'', event_user e]], [None]))"
  using find_user_found [of users "event_user e" u] find_user_absent [of users "event_user e"]
  by (auto simp: prepareSubscriptions_def prepare_subscription_def)

theorem gift_subscription_slots_witness:
  "prepareSubscriptions [gift_event] [gift_user]
     = ([], [Some \<lparr>sub_id = js ''2403846329322621779'', gifted = True,
                   buyer = js ''GenerousGifter'', sub_count = 5, sub_value = 5\<rparr>])
   \<and> prepareSubscriptions [gift_event] [] = ([Log [js ''User not found:'', js ''88707682'']], [None])"
proof -
  have k: "event_kind gift_event = GiftPurchase 5" "event_user gift_event = js ''88707682''"
    "event_id gift_event = js ''2403846329322621779''" "user_name gift_user = js ''GenerousGifter''"
    by (simp_all add: gift_event_def gift_user_def)
  have f: "find_user [gift_user] (event_user gift_event) = Some gift_user"
    by (simp add: find_user_def gift_event_def gift_user_def)
  have g: "event_user gift_event \<notin> user_id ` set []" by simp
  from gift_subscription_slots [where e = gift_event and n = 5 and users = "[gift_user]" and u = gift_user]
    k(1) f
  have 1: "prepareSubscriptions [gift_event] [gift_user]
      = ([], [Some \<lparr>sub_id = event_id gift_event, gifted = True, buyer = user_name gift_user,
                          sub_count = 5, sub_value = 5\<rparr>])"
    by blast
  from gift_subscription_slots [where e = gift_event and n = 5 and users = "[]"] k(1) g
  have 2: "prepareSubscriptions [gift_event] [] = ([Log [js ''User not found:'', event_user gift_event]], [None])"
    by blast
  from 1 2 show ?thesis unfolding k by simp
qed

end
